theory Spec2Isabelle
  imports Complex_Main "HOL-Library.Sublist"
begin

section \<open>Strings\<close>

text \<open>
  A JavaScript string is modelled as a \<open>string\<close> whose characters are the code units
  \<open>0..255\<close> (the Latin-1 range); code units above that range are outside the model.
  A JavaScript \<open>number\<close> is an \<open>int\<close> where the code counts or indexes and a \<open>real\<close>
  where it scores; rounding, \<open>NaN\<close> and the infinities of doubles are outside the model.
\<close>

text \<open>The characters matched by \<open>\s\<close> and removed by \<open>trim\<close>: tab, line feed, vertical tab,
  form feed, carriage return, space and no-break space.\<close>

definition isSpace :: "char \<Rightarrow> bool" where
  "isSpace c = (c \<in> set [CHR 0x09, CHR 0x0A, CHR 0x0B, CHR 0x0C, CHR 0x0D, CHR 0x20, CHR 0xA0])"


text \<open>The characters matched by \<open>\w\<close>.\<close>

definition isWordChar :: "char \<Rightarrow> bool" where
  "isWordChar c = (let n = (of_char c :: nat) in
     (48 \<le> n \<and> n \<le> 57) \<or> (65 \<le> n \<and> n \<le> 90) \<or> n = 95 \<or> (97 \<le> n \<and> n \<le> 122))"

definition isDigit :: "char \<Rightarrow> bool" where
  "isDigit c = (let n = (of_char c :: nat) in 48 \<le> n \<and> n \<le> 57)"

text \<open>\<open>String.prototype.toLowerCase\<close> on one code unit: \<open>A..Z\<close> and the upper-case letters
  \<open>0xC0..0xDE\<close> (without the multiplication sign \<open>0xD7\<close>) become the lower-case letters
  \<open>0x20\<close> above them; every other code unit stays.\<close>

definition upperCaseLetters :: string where
  "upperCaseLetters =
     ''ABCDEFGHIJKLMNOPQRSTUVWXYZ'' @
     [
      CHR 0xC0, CHR 0xC1, CHR 0xC2, CHR 0xC3, CHR 0xC4, CHR 0xC5, CHR 0xC6, CHR 0xC7,
      CHR 0xC8, CHR 0xC9, CHR 0xCA, CHR 0xCB, CHR 0xCC, CHR 0xCD, CHR 0xCE, CHR 0xCF,
      CHR 0xD0, CHR 0xD1, CHR 0xD2, CHR 0xD3, CHR 0xD4, CHR 0xD5, CHR 0xD6, CHR 0xD8,
      CHR 0xD9, CHR 0xDA, CHR 0xDB, CHR 0xDC, CHR 0xDD, CHR 0xDE]"

definition lowerCaseLetters :: string where
  "lowerCaseLetters =
     ''abcdefghijklmnopqrstuvwxyz'' @
     [
      CHR 0xE0, CHR 0xE1, CHR 0xE2, CHR 0xE3, CHR 0xE4, CHR 0xE5, CHR 0xE6, CHR 0xE7,
      CHR 0xE8, CHR 0xE9, CHR 0xEA, CHR 0xEB, CHR 0xEC, CHR 0xED, CHR 0xEE, CHR 0xEF,
      CHR 0xF0, CHR 0xF1, CHR 0xF2, CHR 0xF3, CHR 0xF4, CHR 0xF5, CHR 0xF6, CHR 0xF8,
      CHR 0xF9, CHR 0xFA, CHR 0xFB, CHR 0xFC, CHR 0xFD, CHR 0xFE]"

definition toLowerChar :: "char \<Rightarrow> char" where
  "toLowerChar c =
     (case map_of (zip upperCaseLetters lowerCaseLetters) c of None \<Rightarrow> c | Some d \<Rightarrow> d)"

definition toLowerCase :: "string \<Rightarrow> string" where
  "toLowerCase s = map toLowerChar s"

definition trim :: "string \<Rightarrow> string" where
  "trim s = rev (dropWhile isSpace (rev (dropWhile isSpace s)))"

text \<open>\<open>s.split(/\s+/)\<close>: the pieces between the maximal runs of white space; a run at
  either end leaves an empty piece there, and the empty string gives one empty piece.\<close>

function splitWs :: "string \<Rightarrow> string list" where
  "splitWs s =
     (case dropWhile (\<lambda>c. \<not> isSpace c) s of
        [] \<Rightarrow> [s]
      | c # cs \<Rightarrow> takeWhile (\<lambda>c. \<not> isSpace c) s # splitWs (dropWhile isSpace cs))"
  by pat_completeness auto
termination
proof (relation "measure length")
  fix s :: string and c cs
  assume a: "dropWhile (\<lambda>c. \<not> isSpace c) s = c # cs"
  have "length (dropWhile isSpace cs) \<le> length cs"
    by (rule length_dropWhile_le)
  moreover have "length (c # cs) \<le> length s"
    using length_dropWhile_le [of "\<lambda>c. \<not> isSpace c" s] a by simp
  ultimately show "(dropWhile isSpace cs, s) \<in> measure length"
    by simp
qed simp

declare splitWs.simps [simp del]



text \<open>\<open>xs.slice(0, n)\<close>: a negative end counts from the end of the array.\<close>

definition slice0 :: "'a list \<Rightarrow> int \<Rightarrow> 'a list" where
  "slice0 xs n = (if n < 0 then take (nat (int (length xs) + n)) xs else take (nat n) xs)"

text \<open>\<open>[...new Set(xs)]\<close>: the first occurrence of every element, in order.\<close>

definition dedupe :: "'a list \<Rightarrow> 'a list" where
  "dedupe xs = rev (remdups (rev xs))"

section \<open>Data model\<close>

record DocumentSection =
  ident :: string
  slug :: string
  title :: string
  content :: string
  level :: nat
  startLine :: int
  endLine :: int
  embedding :: "real list option"

record SearchResult =
  sectionOf :: DocumentSection
  score :: real
  matches :: "string list"

text \<open>The response without \<open>searchTime\<close>, which is a difference of two clock readings.\<close>

record SearchResponse =
  query :: string
  results :: "SearchResult list"
  totalResults :: nat

record SearchConfig =
  maxResults :: int
  minScore :: real
  enableSemanticSearch :: bool
  enableKeywordSearch :: bool

text \<open>A \<open>Partial<SearchConfig>\<close>: every field is present with a value or absent.\<close>

record PartialSearchConfig =
  maxResultsP :: "int option"
  minScoreP :: "real option"
  enableSemanticSearchP :: "bool option"
  enableKeywordSearchP :: "bool option"

text \<open>The errors thrown: the \<open>SyntaxError\<close> of \<open>new RegExp\<close>, the \<open>TypeError\<close> of a
  \<open>for...of\<close> over a value that is not iterable, the error of \<open>cosineSimilarity\<close>, the
  \<open>ValidationError\<close> of the route with its message, and a failure of the embedding
  service.\<close>

datatype error =
  SyntaxError
  | TypeError
  | VectorDimensionsMustMatch
  | ValidationError string
  | EmbeddingFailure

text \<open>
  The service object. Its configuration is a JavaScript object held by reference, so the
  configuration objects live in a store \<open>objs\<close> from addresses to objects; \<open>configRef\<close> is
  the address in the field \<open>this.config\<close> and \<open>nextFree\<close> the next address an object
  literal gets. The state of the embedding service is of the type \<open>'e\<close>. The field
  \<open>pending\<close> is not a field of the class: it holds the arguments of the calls of
  \<open>initialize\<close> that \<open>updateSections\<close> has started and whose promises have not settled
  yet.
\<close>

record 'e SearchService =
  embeddingService :: 'e
  sections :: "DocumentSection list"
  objs :: "nat \<Rightarrow> SearchConfig"
  configRef :: nat
  nextFree :: nat
  pending :: "DocumentSection list list"

definition config :: "('e, 'x) SearchService_scheme \<Rightarrow> SearchConfig" where
  "config st = objs st (configRef st)"

definition defaultConfig :: SearchConfig where
  "defaultConfig =
     \<lparr>maxResults = 10, minScore = 0.1, enableSemanticSearch = True, enableKeywordSearch = True\<rparr>"

text \<open>\<open>new SearchService()\<close>, with the embedding service it constructs.\<close>

definition newSearchService :: "'e \<Rightarrow> 'e SearchService" where
  "newSearchService es =
     \<lparr>embeddingService = es, sections = [], objs = (\<lambda>_. defaultConfig), configRef = 0,
      nextFree = 1, pending = []\<rparr>"

text \<open>The address in \<open>this.config\<close> has been handed out.\<close>

definition wellFormed :: "('e, 'x) SearchService_scheme \<Rightarrow> bool" where
  "wellFormed st = (configRef st < nextFree st)"

section \<open>Configuration\<close>

text \<open>\<open>{ ...base, ...partial }\<close>: the fields present in \<open>partial\<close> replace those of \<open>base\<close>.\<close>

definition spreadConfig :: "SearchConfig \<Rightarrow> PartialSearchConfig \<Rightarrow> SearchConfig" where
  "spreadConfig base p =
     \<lparr>maxResults = (case maxResultsP p of None \<Rightarrow> maxResults base | Some v \<Rightarrow> v),
      minScore = (case minScoreP p of None \<Rightarrow> minScore base | Some v \<Rightarrow> v),
      enableSemanticSearch =
        (case enableSemanticSearchP p of None \<Rightarrow> enableSemanticSearch base | Some v \<Rightarrow> v),
      enableKeywordSearch =
        (case enableKeywordSearchP p of None \<Rightarrow> enableKeywordSearch base | Some v \<Rightarrow> v)\<rparr>"

text \<open>\<open>getConfig\<close> returns the address of a new object holding the fields of the
  configuration.\<close>

definition getConfig :: "'e SearchService \<Rightarrow> 'e SearchService \<times> nat" where
  "getConfig st =
     (st\<lparr>objs := (objs st)(nextFree st := config st), nextFree := Suc (nextFree st)\<rparr>,
      nextFree st)"

text \<open>\<open>updateConfig\<close> stores the address of a new object in \<open>this.config\<close>.\<close>

definition updateConfig :: "'e SearchService \<Rightarrow> PartialSearchConfig \<Rightarrow> 'e SearchService" where
  "updateConfig st p =
     st\<lparr>objs := (objs st)(nextFree st := spreadConfig (config st) p),
        configRef := nextFree st,
        nextFree := Suc (nextFree st)\<rparr>"

text \<open>A caller's assignment to the fields of the object at an address.\<close>

definition mutateObject ::
  "'e SearchService \<Rightarrow> nat \<Rightarrow> (SearchConfig \<Rightarrow> SearchConfig) \<Rightarrow> 'e SearchService" where
  "mutateObject st a f = st\<lparr>objs := (objs st)(a := f (objs st a))\<rparr>"

section \<open>Regular expressions\<close>

text \<open>
  The code builds regular expressions from the terms of the query: \<open>new RegExp(term, 'g')\<close>
  and \<open>new RegExp(`\\b${term}\\b`, 'gi')\<close>. The constructor and the matcher belong to
  the language, not to the repository. The model decides what is certain of them and
  leaves the rest to a parameter:
  \<^item> a pattern is read as a sequence of tokens: a character that is no syntax character
    stands for itself, \<open>\b\<close> is the word boundary, and \<open>. * + ? ( ) |\<close> are operators;
    a pattern with another escape, a bracket, a brace, an anchor or a group that starts
    with \<open>(?\<close> is outside that reading;
  \<^item> a pattern of operators is rejected when a quantifier has nothing to repeat or a
    parenthesis is unmatched, as the constructor does with a \<open>SyntaxError\<close>;
  \<^item> a pattern of characters and word boundaries only is matched here;
  \<^item> every other pattern is given to the parameter, the engine of the runtime.
\<close>

datatype token = Chr char | WordB | Dot | Star | Plus | Quest | LPar | RPar | Bar

definition tokenOf :: "char \<Rightarrow> token option" where
  "tokenOf c =
     (if c = CHR ''.'' then Some Dot
      else if c = CHR ''*'' then Some Star
      else if c = CHR ''+'' then Some Plus
      else if c = CHR ''?'' then Some Quest
      else if c = CHR ''('' then Some LPar
      else if c = CHR '')'' then Some RPar
      else if c = CHR ''|'' then Some Bar
      else if c \<in> set [CHR ''^'', CHR ''$'', CHR 0x5C, CHR ''['', CHR '']'', CHR ''{'', CHR ''}'']
        then None
      else Some (Chr c))"

fun tokenize :: "string \<Rightarrow> token list option" where
  "tokenize [] = Some []"
| "tokenize (c # cs) =
     (if c = CHR 0x5C then
        (case cs of
           [] \<Rightarrow> None
         | d # ds \<Rightarrow> if d = CHR ''b'' then map_option ((#) WordB) (tokenize ds) else None)
      else if c = CHR ''('' \<and> take 1 cs = [CHR ''?''] then None
      else (case tokenOf c of
              None \<Rightarrow> None
            | Some t \<Rightarrow> map_option ((#) t) (tokenize cs)))"

text \<open>What stands before the position of the parser: nothing a quantifier could repeat,
  an atom, or an atom with its quantifier (which a \<open>?\<close> may still make lazy).\<close>

datatype before = NoAtom | Atom | Quantified

fun validTokens :: "nat \<Rightarrow> before \<Rightarrow> token list \<Rightarrow> bool" where
  "validTokens depth b [] = (depth = 0)"
| "validTokens depth b (Chr c # ts) = validTokens depth Atom ts"
| "validTokens depth b (Dot # ts) = validTokens depth Atom ts"
| "validTokens depth b (WordB # ts) = validTokens depth NoAtom ts"
| "validTokens depth b (Bar # ts) = validTokens depth NoAtom ts"
| "validTokens depth b (LPar # ts) = validTokens (Suc depth) NoAtom ts"
| "validTokens depth b (RPar # ts) = (0 < depth \<and> validTokens (depth - 1) Atom ts)"
| "validTokens depth b (Star # ts) = (b = Atom \<and> validTokens depth Quantified ts)"
| "validTokens depth b (Plus # ts) = (b = Atom \<and> validTokens depth Quantified ts)"
| "validTokens depth b (Quest # ts) =
     ((b = Atom \<and> validTokens depth Quantified ts) \<or> (b = Quantified \<and> validTokens depth NoAtom ts))"

fun plainToken :: "token \<Rightarrow> bool" where
  "plainToken (Chr c) = True"
| "plainToken WordB = True"
| "plainToken t = False"

text \<open>With the flag \<open>i\<close> two characters match when their canonical forms agree; in the
  Latin-1 range those are the pairs that \<open>toLowerChar\<close> identifies.\<close>

definition sameChar :: "bool \<Rightarrow> char \<Rightarrow> char \<Rightarrow> bool" where
  "sameChar ignoreCase c d = (if ignoreCase then toLowerChar c = toLowerChar d else c = d)"

definition isWordAt :: "char option \<Rightarrow> bool" where
  "isWordAt c = (case c of None \<Rightarrow> False | Some d \<Rightarrow> isWordChar d)"

text \<open>The match of a plain pattern that starts at the head of the text, after the
  character \<open>prev\<close>: the matched characters of the text.\<close>

fun matchHere :: "bool \<Rightarrow> token list \<Rightarrow> char option \<Rightarrow> string \<Rightarrow> string option" where
  "matchHere ic [] prev text = Some []"
| "matchHere ic (Chr c # ts) prev [] = None"
| "matchHere ic (Chr c # ts) prev (d # ds) =
     (if sameChar ic c d then map_option ((#) d) (matchHere ic ts (Some d) ds) else None)"
| "matchHere ic (WordB # ts) prev text =
     (if isWordAt prev \<noteq> isWordAt (case text of [] \<Rightarrow> None | d # ds \<Rightarrow> Some d)
      then matchHere ic ts prev text else None)"
| "matchHere ic (t # ts) prev text = None"

text \<open>\<open>text.match(re)\<close> for a global \<open>re\<close>: the matches from left to right, each search
  starting where the last match ended, one character further after an empty match;
  the empty list stands for \<open>null\<close>.\<close>

fun matchAll :: "bool \<Rightarrow> token list \<Rightarrow> char option \<Rightarrow> string \<Rightarrow> string list" where
  "matchAll ic ts prev [] = (case matchHere ic ts prev [] of None \<Rightarrow> [] | Some m \<Rightarrow> [m])"
| "matchAll ic ts prev (d # ds) =
     (case matchHere ic ts prev (d # ds) of
        None \<Rightarrow> matchAll ic ts (Some d) ds
      | Some m \<Rightarrow>
          if m = [] then [] # matchAll ic ts (Some d) ds
          else m # matchAll ic ts (Some (last m)) (drop (length m - 1) ds))"

type_synonym regexp = "string \<Rightarrow> string list"

type_synonym regexpEngine = "string \<Rightarrow> bool \<Rightarrow> error + regexp"

text \<open>\<open>new RegExp(pattern, 'g')\<close> and, with \<open>ignoreCase\<close>, \<open>new RegExp(pattern, 'gi')\<close>.\<close>

definition RegExp :: "regexpEngine \<Rightarrow> string \<Rightarrow> bool \<Rightarrow> error + regexp" where
  "RegExp R pattern ignoreCase =
     (case tokenize pattern of
        None \<Rightarrow> R pattern ignoreCase
      | Some ts \<Rightarrow>
          if \<not> validTokens 0 NoAtom ts then Inl SyntaxError
          else if list_all plainToken ts then Inr (matchAll ignoreCase ts None)
          else R pattern ignoreCase)"

section \<open>The embedding service\<close>

text \<open>
  The class \<open>EmbeddingService\<close> (\<open>./embeddingService\<close>) is not among the sources. The three
  methods of it that the search service calls are parameters: \<open>initialize\<close>, which may
  fail, \<open>isReady\<close>, and \<open>generateEmbedding\<close>, a function of the state of the service and of
  the text that may fail.
\<close>

record 'e EmbeddingOps =
  embInitialize :: "'e \<Rightarrow> error + 'e"
  isReady :: "'e \<Rightarrow> bool"
  generateEmbedding :: "'e \<Rightarrow> string \<Rightarrow> error + real list"

section \<open>The search service\<close>

fun embedSections ::
  "'e EmbeddingOps \<Rightarrow> 'e \<Rightarrow> DocumentSection list \<Rightarrow> error + DocumentSection list" where
  "embedSections E es [] = Inr []"
| "embedSections E es (s # ss) =
     (case generateEmbedding E es (title s @ '' '' @ content s) of
        Inl e \<Rightarrow> Inl e
      | Inr v \<Rightarrow>
          (case embedSections E es ss of
             Inl e \<Rightarrow> Inl e
           | Inr ss' \<Rightarrow> Inr (s\<lparr>embedding := Some v\<rparr> # ss')))"

text \<open>\<open>initialize\<close>: the state it leaves and the error it throws, if any. The sections are
  assigned only when every embedding has been computed.\<close>

definition initialize ::
  "'e EmbeddingOps \<Rightarrow> 'e SearchService \<Rightarrow> DocumentSection list
   \<Rightarrow> 'e SearchService \<times> error option" where
  "initialize E st secs =
     (case embInitialize E (embeddingService st) of
        Inl e \<Rightarrow> (st, Some e)
      | Inr es \<Rightarrow>
          (case embedSections E es secs of
             Inl e \<Rightarrow> (st\<lparr>embeddingService := es\<rparr>, Some e)
           | Inr secs' \<Rightarrow> (st\<lparr>embeddingService := es, sections := secs'\<rparr>, None)))"

text \<open>
  \<open>updateSections\<close> starts \<open>initialize\<close> without awaiting it and returns at once: the index
  is the old one when it returns, and nothing tells the caller when the promise settles.
  The model takes the body of \<open>initialize\<close> as one step, \<open>settle\<close>, which the event loop
  takes later for any one of the pending calls; an error of that step is caught and logged.
\<close>

definition updateSections :: "'e SearchService \<Rightarrow> DocumentSection list \<Rightarrow> 'e SearchService" where
  "updateSections st secs = st\<lparr>pending := pending st @ [secs]\<rparr>"

definition settle :: "'e EmbeddingOps \<Rightarrow> 'e SearchService \<Rightarrow> nat \<Rightarrow> 'e SearchService" where
  "settle E st k =
     (if k < length (pending st) then
        fst (initialize E (st\<lparr>pending := take k (pending st) @ drop (Suc k) (pending st)\<rparr>)
               (pending st ! k))
      else st)"

definition cosineSimilarity :: "real list \<Rightarrow> real list \<Rightarrow> error + real" where
  "cosineSimilarity a b =
     (if length a \<noteq> length b then Inl VectorDimensionsMustMatch
      else
        (let (dotProduct, normA, normB) =
               foldl (\<lambda>(d, na, nb) (x, y). (d + x * y, na + x * x, nb + y * y)) (0, 0, 0) (zip a b);
             magnitude = sqrt normA * sqrt normB
         in Inr (if magnitude = 0 then 0 else dotProduct / magnitude)))"

definition queryTerms :: "string \<Rightarrow> string list" where
  "queryTerms q = filter (\<lambda>term. 2 < length term) (splitWs (toLowerCase q))"

definition wordBoundary :: string where
  "wordBoundary = [CHR 0x5C, CHR ''b'']"

fun findMatchesLoop ::
  "regexpEngine \<Rightarrow> string \<Rightarrow> string list \<Rightarrow> string list \<Rightarrow> error + string list" where
  "findMatchesLoop R text [] ms = Inr ms"
| "findMatchesLoop R text (t # ts) ms =
     (case RegExp R (wordBoundary @ t @ wordBoundary) True of
        Inl e \<Rightarrow> Inl e
      | Inr regex \<Rightarrow> findMatchesLoop R text ts (ms @ regex text))"

definition findMatches :: "regexpEngine \<Rightarrow> string \<Rightarrow> string \<Rightarrow> error + string list" where
  "findMatches R q text =
     (case findMatchesLoop R text (queryTerms q) [] of
        Inl e \<Rightarrow> Inl e
      | Inr ms \<Rightarrow> Inr (dedupe ms))"

text \<open>\<open>xs.sort((a, b) => b.score - a.score)\<close>: a stable sort by descending score.\<close>

definition sortByScore :: "SearchResult list \<Rightarrow> SearchResult list" where
  "sortByScore rs = sort_key (\<lambda>r. - score r) rs"

fun semanticLoop ::
  "regexpEngine \<Rightarrow> real \<Rightarrow> real list \<Rightarrow> string \<Rightarrow> DocumentSection list
   \<Rightarrow> SearchResult list \<Rightarrow> error + SearchResult list" where
  "semanticLoop R minS qe q [] rs = Inr rs"
| "semanticLoop R minS qe q (s # ss) rs =
     (case embedding s of
        None \<Rightarrow> semanticLoop R minS qe q ss rs
      | Some v \<Rightarrow>
          (case cosineSimilarity qe v of
             Inl e \<Rightarrow> Inl e
           | Inr similarity \<Rightarrow>
               if minS \<le> similarity then
                 (case findMatches R q (content s) of
                    Inl e \<Rightarrow> Inl e
                  | Inr ms \<Rightarrow>
                      semanticLoop R minS qe q ss
                        (rs @ [\<lparr>sectionOf = s, score = similarity, matches = ms\<rparr>]))
               else semanticLoop R minS qe q ss rs))"

text \<open>\<open>semanticSearch\<close> catches every error of its body and returns no result then.\<close>

definition semanticSearch ::
  "'e EmbeddingOps \<Rightarrow> regexpEngine \<Rightarrow> 'e SearchService \<Rightarrow> string \<Rightarrow> int \<Rightarrow> SearchResult list" where
  "semanticSearch E R st q maxR =
     (if \<not> isReady E (embeddingService st) then []
      else
        (case generateEmbedding E (embeddingService st) q of
           Inl e \<Rightarrow> []
         | Inr queryEmbedding \<Rightarrow>
             (case semanticLoop R (minScore (config st)) queryEmbedding q (sections st) [] of
                Inl e \<Rightarrow> []
              | Inr rs \<Rightarrow> slice0 (sortByScore rs) maxR)))"

text \<open>The loop over the terms of the query for one section: the raw score.\<close>

fun termLoop :: "regexpEngine \<Rightarrow> string \<Rightarrow> string \<Rightarrow> string list \<Rightarrow> nat \<Rightarrow> error + nat" where
  "termLoop R ttl body [] sc = Inr sc"
| "termLoop R ttl body (t # ts) sc =
     (case RegExp R t False of
        Inl e \<Rightarrow> Inl e
      | Inr titleRegex \<Rightarrow>
          (case RegExp R t False of
             Inl e \<Rightarrow> Inl e
           | Inr contentRegex \<Rightarrow>
               termLoop R ttl body ts
                 (sc + (length (titleRegex ttl) * 3 + length (contentRegex body)))))"

fun keywordLoop ::
  "regexpEngine \<Rightarrow> string \<Rightarrow> string list \<Rightarrow> DocumentSection list \<Rightarrow> SearchResult list
   \<Rightarrow> error + SearchResult list" where
  "keywordLoop R q terms [] rs = Inr rs"
| "keywordLoop R q terms (s # ss) rs =
     (case termLoop R (toLowerCase (title s)) (toLowerCase (content s)) terms 0 of
        Inl e \<Rightarrow> Inl e
      | Inr sc \<Rightarrow>
          if 0 < sc then
            (case findMatches R q (content s) of
               Inl e \<Rightarrow> Inl e
             | Inr ms \<Rightarrow>
                 keywordLoop R q terms ss
                   (rs @ [\<lparr>sectionOf = s,
                           score = min (real sc / (real (length terms) * 5)) 1,
                           matches = ms\<rparr>]))
          else keywordLoop R q terms ss rs)"

text \<open>
  A value that is passed where the code expects an array: an array, or the promise that
  \<open>Promise.resolve(xs)\<close> makes of one. A \<open>for...of\<close> iterates over an array; a promise is
  not iterable, and the \<open>for...of\<close> over it throws a \<open>TypeError\<close>.
\<close>

datatype 'a arrayOrPromise = Array "'a list" | Promise "'a list"

text \<open>\<open>keywordSearch\<close> is no \<open>async\<close> function: an error of its body is thrown to the
  caller, and what it returns is the promise \<open>Promise.resolve(...)\<close>.\<close>

definition keywordSearch ::
  "regexpEngine \<Rightarrow> 'e SearchService \<Rightarrow> string \<Rightarrow> int \<Rightarrow> error + SearchResult arrayOrPromise" where
  "keywordSearch R st q maxR =
     (case keywordLoop R q (queryTerms q) (sections st) [] of
        Inl e \<Rightarrow> Inl e
      | Inr rs \<Rightarrow> Inr (Promise (slice0 (sortByScore rs) maxR)))"

text \<open>The map \<open>merged\<close>, whose keys are the values of \<open>result.section.id\<close>: a \<open>Map\<close> keeps its
  keys in the order of their first insertion.\<close>

fun mapSet :: "(string \<times> SearchResult) list \<Rightarrow> string \<Rightarrow> SearchResult \<Rightarrow> (string \<times> SearchResult) list" where
  "mapSet [] k v = [(k, v)]"
| "mapSet ((k', v') # m) k v = (if k' = k then (k, v) # m else (k', v') # mapSet m k v)"

definition addSemantic :: "(string \<times> SearchResult) list \<Rightarrow> SearchResult \<Rightarrow> (string \<times> SearchResult) list" where
  "addSemantic m r = mapSet m (ident (sectionOf r)) r"

definition addKeyword :: "(string \<times> SearchResult) list \<Rightarrow> SearchResult \<Rightarrow> (string \<times> SearchResult) list" where
  "addKeyword m r =
     (case map_of m (ident (sectionOf r)) of
        Some existing \<Rightarrow>
          mapSet m (ident (sectionOf r))
            (existing\<lparr>score := score existing * 0.6 + score r * 0.4,
                      matches := dedupe (matches existing @ matches r)\<rparr>)
      | None \<Rightarrow> mapSet m (ident (sectionOf r)) r)"

text \<open>The map \<open>merged\<close> after the two loops of \<open>mergeResults\<close> over two arrays.\<close>

definition mergedMap :: "SearchResult list \<Rightarrow> SearchResult list \<Rightarrow> (string \<times> SearchResult) list" where
  "mergedMap semanticResults keywordResults =
     foldl addKeyword (foldl addSemantic [] semanticResults) keywordResults"

text \<open>\<open>mergeResults\<close>: the second loop is a \<open>for...of\<close> over \<open>keywordResults\<close>, which throws
  when that value is a promise; the first loop has only filled the local map by then.\<close>

definition mergeResults ::
  "SearchResult list \<Rightarrow> SearchResult arrayOrPromise \<Rightarrow> int \<Rightarrow> error + SearchResult list" where
  "mergeResults semanticResults keywordResults maxR =
     (case keywordResults of
        Promise p \<Rightarrow> Inl TypeError
      | Array kw \<Rightarrow> Inr (slice0 (sortByScore (map snd (mergedMap semanticResults kw))) maxR))"

text \<open>\<open>maxResults || this.config.maxResults\<close>: an absent or zero argument gives the
  configured value.\<close>

definition limitOf :: "'e SearchService \<Rightarrow> int option \<Rightarrow> int" where
  "limitOf st maxR =
     (case maxR of
        None \<Rightarrow> maxResults (config st)
      | Some n \<Rightarrow> if n = 0 then maxResults (config st) else n)"

text \<open>
  \<open>search\<close> awaits \<open>semanticSearch\<close>, but it does not await \<open>keywordSearch\<close>: the value it
  hands to \<open>mergeResults\<close> as \<open>keywordResults\<close> is the promise itself. Every error of the
  body is logged and thrown again.
\<close>

definition search ::
  "'e EmbeddingOps \<Rightarrow> regexpEngine \<Rightarrow> 'e SearchService \<Rightarrow> string \<Rightarrow> int option
   \<Rightarrow> error + SearchResponse" where
  "search E R st q maxR =
     (let limit = limitOf st maxR;
          semanticResults =
            (if enableSemanticSearch (config st) then semanticSearch E R st q limit else [])
      in case (if enableKeywordSearch (config st) then
                 (case keywordSearch R st q limit of
                    Inl e \<Rightarrow> Inl e
                  | Inr keywordResults \<Rightarrow> mergeResults semanticResults keywordResults limit)
               else Inr semanticResults) of
           Inl e \<Rightarrow> Inl e
         | Inr rs \<Rightarrow>
             Inr \<lparr>query = q,
                  results = slice0 (sortByScore rs) limit,
                  totalResults = length (slice0 (sortByScore rs) limit)\<rparr>)"

section \<open>The search route\<close>

definition digitValue :: "char \<Rightarrow> nat" where
  "digitValue c = of_char c - 48"

text \<open>\<open>parseInt(s, 10)\<close>: after leading white space and one optional sign, the longest
  run of decimal digits; \<open>None\<close> stands for \<open>NaN\<close>, the result when that run is empty.\<close>

definition parseInt10 :: "string \<Rightarrow> int option" where
  "parseInt10 s =
     (let s1 = dropWhile isSpace s;
          s2 = (if take 1 s1 = ''-'' \<or> take 1 s1 = ''+'' then drop 1 s1 else s1);
          ds = takeWhile isDigit s2
      in if ds = [] then None
         else Some ((if take 1 s1 = ''-'' then - 1 else 1)
                    * int (foldl (\<lambda>n c. n * 10 + digitValue c) 0 ds)))"

text \<open>The handler of \<open>GET /api/search?q=...&limit=...\<close>. A parameter of the query string
  is absent or a string; \<open>!query\<close> and the test of \<open>limit\<close> take the empty string as
  absent.\<close>

text \<open>The message \<open>Query parameter "q" is required\<close>.\<close>

definition queryRequired :: string where
  "queryRequired = ''Query parameter '' @ [CHR 0x22] @ ''q'' @ [CHR 0x22] @ '' is required''"

definition searchRoute ::
  "'e EmbeddingOps \<Rightarrow> regexpEngine \<Rightarrow> 'e SearchService \<Rightarrow> string option \<Rightarrow> string option
   \<Rightarrow> error + SearchResponse" where
  "searchRoute E R st q limit =
     (case q of
        None \<Rightarrow> Inl (ValidationError queryRequired)
      | Some queryString \<Rightarrow>
          if queryString = [] then Inl (ValidationError queryRequired)
          else if length (trim queryString) = 0 then Inl (ValidationError ''Query cannot be empty'')
          else if 500 < length queryString then
            Inl (ValidationError ''Query too long (max 500 characters)'')
          else
            (case (case limit of
                     None \<Rightarrow> None
                   | Some l \<Rightarrow> if l = [] then None else Some (parseInt10 l)) of
               None \<Rightarrow> search E R st (trim queryString) None
             | Some None \<Rightarrow> Inl (ValidationError ''Limit must be a number between 1 and 100'')
             | Some (Some n) \<Rightarrow>
                 if n < 1 \<or> 100 < n then
                   Inl (ValidationError ''Limit must be a number between 1 and 100'')
                 else search E R st (trim queryString) (Some n)))"

text \<open>\<open>String(n)\<close> for an integer: its decimal numeral.\<close>

definition digitChar :: "nat \<Rightarrow> char" where
  "digitChar d = ''0123456789'' ! d"

function showNat :: "nat \<Rightarrow> string" where
  "showNat n = (if n < 10 then [digitChar n] else showNat (n div 10) @ [digitChar (n mod 10)])"
  by pat_completeness auto
termination
  by (relation "measure id") auto

declare showNat.simps [simp del]

definition showInt :: "int \<Rightarrow> string" where
  "showInt n = (if n < 0 then CHR ''-'' # showNat (nat (- n)) else showNat (nat n))"

section \<open>The section extractor\<close>








section \<open>Notions of the specification\<close>

text \<open>A query is blank when it is empty or consists of white space only.\<close>

definition blank :: "string \<Rightarrow> bool" where
  "blank q = list_all isSpace q"

text \<open>The words of a text: the maximal runs of characters that are no white space.\<close>

fun wsWords :: "string \<Rightarrow> string list" where
  "wsWords [] = []"
| "wsWords (c # cs) =
     (if isSpace c then wsWords cs
      else if cs = [] \<or> isSpace (hd cs) then [c] # wsWords cs
      else (case wsWords cs of [] \<Rightarrow> [[c]] | w # ws \<Rightarrow> (c # w) # ws))"

text \<open>The terms of a query: its words of more than two characters.\<close>

definition termsOf :: "string \<Rightarrow> string list" where
  "termsOf q = filter (\<lambda>w. 2 < length w) (wsWords q)"

text \<open>The syntax characters of regular expressions; a term is literal when it holds none
  of them.\<close>

definition syntaxCharacters :: string where
  "syntaxCharacters =
     [CHR 0x5C, CHR ''^'', CHR ''$'', CHR ''.'', CHR ''*'', CHR ''+'', CHR ''?'', CHR ''('',
      CHR '')'', CHR ''['', CHR '']'', CHR ''{'', CHR ''}'', CHR ''|'']"

definition literalTerm :: "string \<Rightarrow> bool" where
  "literalTerm t = list_all (\<lambda>c. c \<notin> set syntaxCharacters) t"

text \<open>
  The occurrences of a term in a text: the places, from left to right and without
  overlap, where the text holds the characters of the term.
\<close>

function occurrences :: "string \<Rightarrow> string \<Rightarrow> nat" where
  "occurrences t text =
     (if t = [] \<or> length text < length t then 0
      else if prefix t text then Suc (occurrences t (drop (length t) text))
      else occurrences t (tl text))"
  by pat_completeness auto
termination
proof (relation "measure (\<lambda>(t, text). length text)")
  fix t s :: string
  assume a: "\<not> (t = [] \<or> length s < length t)"
  then have "0 < length t" and "0 < length s"
    by auto
  then show "((t, drop (length t) s), (t, s)) \<in> measure (\<lambda>(t, text). length text)"
    and "((t, tl s), (t, s)) \<in> measure (\<lambda>(t, text). length text)"
    by auto
qed simp

declare occurrences.simps [simp del]

text \<open>The raw score of a section for the terms of a query: over the terms, three times
  the occurrences in the title plus the occurrences in the body, whatever the case of
  the letters.\<close>

definition rawScore :: "string list \<Rightarrow> DocumentSection \<Rightarrow> nat" where
  "rawScore ts s =
     (\<Sum>t\<leftarrow>ts. 3 * occurrences (toLowerCase t) (toLowerCase (title s))
               + occurrences (toLowerCase t) (toLowerCase (content s)))"

text \<open>The reported score: the raw score over five times the number of terms, at most one.\<close>

definition normalizedScore :: "string list \<Rightarrow> DocumentSection \<Rightarrow> real" where
  "normalizedScore ts s = min (real (rawScore ts s) / (real (length ts) * 5)) 1"




section \<open>Example data\<close>

text \<open>An engine that rejects every pattern left to it.\<close>

definition rejectingEngine :: regexpEngine where
  "rejectingEngine = (\<lambda>pattern ignoreCase. Inl SyntaxError)"

text \<open>The three sections that the tests of the repository index, and the section that
  the test of \<open>updateSections\<close> adds.\<close>

definition testSections :: "DocumentSection list" where
  "testSections =
     [\<lparr>ident = ''section-1'', slug = ''introduction'', title = ''Introduction'',
       content = ''This is an introduction to the brand guidelines document. It covers basic concepts.'',
       level = 1, startLine = 1, endLine = 5, embedding = None\<rparr>,
      \<lparr>ident = ''section-2'', slug = ''brand-colors'', title = ''Brand Colors'',
       content = ''Our brand uses specific colors including blue #3b82f6 and red #ef4444 for consistency.'',
       level = 2, startLine = 6, endLine = 10, embedding = None\<rparr>,
      \<lparr>ident = ''section-3'', slug = ''typography'', title = ''Typography'',
       content = ''We use modern fonts like Inter and Roboto for all brand communications and marketing.'',
       level = 2, startLine = 11, endLine = 15, embedding = None\<rparr>]"

definition logosSection :: DocumentSection where
  "logosSection =
     \<lparr>ident = ''section-4'', slug = ''logos'', title = ''Logos'',
      content = ''Logo guidelines and usage examples for consistent branding.'',
      level = 2, startLine = 16, endLine = 20, embedding = None\<rparr>"

text \<open>An embedding service that is ready and gives a text a vector with one coordinate
  for every word of the text, so that its vectors have no common dimension.\<close>

definition wordVectorOps :: "unit EmbeddingOps" where
  "wordVectorOps =
     \<lparr>embInitialize = Inr, isReady = (\<lambda>es. True),
      generateEmbedding = (\<lambda>es text. Inr (map (\<lambda>w. 1) (wsWords text)))\<rparr>"

definition brandColors :: DocumentSection where
  "brandColors =
     \<lparr>ident = ''section-0'', slug = ''brand-colors'', title = ''Brand Colors'',
      content = ''blue'', level = 1, startLine = 0, endLine = 1, embedding = None\<rparr>"

text \<open>The service after \<open>updateSections([brandColors])\<close> has settled with that embedding
  service: the vector of the section has three dimensions, the vector of a query of one
  word has one.\<close>

definition unevenService :: "unit SearchService" where
  "unevenService = settle wordVectorOps (updateSections (newSearchService ()) [brandColors]) 0"

text \<open>The partial configuration \<open>{enableKeywordSearch: false}\<close>, and the last service after
  \<open>updateConfig\<close> with it.\<close>

definition keywordOff :: PartialSearchConfig where
  "keywordOff =
     \<lparr>maxResultsP = None, minScoreP = None, enableSemanticSearchP = None,
      enableKeywordSearchP = Some False\<rparr>"

definition unevenVectorOnly :: "unit SearchService" where
  "unevenVectorOnly = updateConfig unevenService keywordOff"

text \<open>An embedding service that is ready and maps a text to a vector of two dimensions:
  how many of the words of the lower-cased text are the word \<open>brand\<close>, and how many are
  other words.\<close>

definition exampleVector :: "string \<Rightarrow> real list" where
  "exampleVector text =
     (let ws = wsWords (toLowerCase text)
      in [real (length (filter (\<lambda>w. w = ''brand'') ws)),
          real (length (filter (\<lambda>w. w \<noteq> ''brand'') ws))])"

definition exampleOps :: "unit EmbeddingOps" where
  "exampleOps =
     \<lparr>embInitialize = Inr, isReady = (\<lambda>es. True),
      generateEmbedding = (\<lambda>es text. Inr (exampleVector text))\<rparr>"

text \<open>Three sections: the vector of the first is \<open>[3, 4]\<close>, the vectors of the other two
  are \<open>[2, 0]\<close>.\<close>

definition mixedSection :: DocumentSection where
  "mixedSection =
     \<lparr>ident = ''section-0'', slug = ''brand-rules'', title = ''Brand rules'',
      content = ''brand logo and brand colors'', level = 1, startLine = 0, endLine = 1,
      embedding = None\<rparr>"

definition brandSection :: DocumentSection where
  "brandSection =
     \<lparr>ident = ''section-1'', slug = ''brand'', title = ''Brand'',
      content = ''brand'', level = 1, startLine = 2, endLine = 3, embedding = None\<rparr>"

definition brandAgain :: DocumentSection where
  "brandAgain =
     \<lparr>ident = ''section-2'', slug = ''brand-1'', title = ''BRAND'',
      content = ''Brand'', level = 1, startLine = 4, endLine = 5, embedding = None\<rparr>"

text \<open>The service after \<open>updateConfig({enableKeywordSearch: false})\<close> and
  \<open>initialize([mixedSection, brandSection, brandAgain])\<close>.\<close>

definition rankedService :: "unit SearchService" where
  "rankedService =
     fst (initialize exampleOps (updateConfig (newSearchService ()) keywordOff)
            [mixedSection, brandSection, brandAgain])"

text \<open>The service with the default configuration after
  \<open>initialize([mixedSection, brandSection, brandAgain])\<close>.\<close>

definition hybridService :: "unit SearchService" where
  "hybridService =
     fst (initialize exampleOps (newSearchService ()) [mixedSection, brandSection, brandAgain])"




section \<open>Properties of the configuration\<close>

lemma wellFormed_new: "wellFormed (newSearchService es)"
  by (simp add: wellFormed_def newSearchService_def)

lemma wellFormed_updateConfig: "wellFormed (updateConfig st p)"
  by (simp add: wellFormed_def updateConfig_def)

lemma wellFormed_getConfig: "wellFormed st \<Longrightarrow> wellFormed (fst (getConfig st))"
  by (simp add: wellFormed_def getConfig_def)

lemma config_updateConfig: "config (updateConfig st p) = spreadConfig (config st) p"
  by (simp add: config_def updateConfig_def)

text \<open>
  C10. \<open>updateConfig\<close> leaves every field that is absent from the partial configuration
  unchanged; \<open>getConfig\<close> returns an object with the fields of the configuration, and no
  assignment to the fields of the returned object changes the configuration of the service.
\<close>

theorem updateConfig_frame_getConfig_copy:
  fixes st :: "'e SearchService"
  assumes "wellFormed st"
  shows "(maxResultsP p = None \<longrightarrow>
            maxResults (config (updateConfig st p)) = maxResults (config st))
       \<and> (minScoreP p = None \<longrightarrow>
            minScore (config (updateConfig st p)) = minScore (config st))
       \<and> (enableSemanticSearchP p = None \<longrightarrow>
            enableSemanticSearch (config (updateConfig st p)) = enableSemanticSearch (config st))
       \<and> (enableKeywordSearchP p = None \<longrightarrow>
            enableKeywordSearch (config (updateConfig st p)) = enableKeywordSearch (config st))
       \<and> objs (fst (getConfig st)) (snd (getConfig st)) = config st
       \<and> snd (getConfig st) \<noteq> configRef (fst (getConfig st))
       \<and> config (fst (getConfig st)) = config st
       \<and> config (mutateObject (fst (getConfig st)) (snd (getConfig st)) f) = config st"
proof -
  have fresh: "configRef st \<noteq> nextFree st"
    using assms by (simp add: wellFormed_def)
  have upd: "config (updateConfig st p) = spreadConfig (config st) p"
    by (rule config_updateConfig)
  have copy: "objs (fst (getConfig st)) (snd (getConfig st)) = config st"
    by (simp add: getConfig_def)
  have ref: "snd (getConfig st) \<noteq> configRef (fst (getConfig st))"
    using fresh by (simp add: getConfig_def)
  have same: "config (fst (getConfig st)) = config st"
    using fresh by (simp add: getConfig_def config_def)
  have mut: "config (mutateObject (fst (getConfig st)) (snd (getConfig st)) f) = config st"
    using fresh by (simp add: getConfig_def config_def mutateObject_def)
  show ?thesis
    using copy ref same mut by (simp add: upd spreadConfig_def)
qed

theorem updateConfig_frame_getConfig_copy_witness:
  "wellFormed (newSearchService ())
   \<and> minScoreP \<lparr>maxResultsP = Some 5, minScoreP = None, enableSemanticSearchP = None,
          enableKeywordSearchP = None\<rparr> = None
   \<and> minScore (config (updateConfig (newSearchService ())
        \<lparr>maxResultsP = Some 5, minScoreP = None, enableSemanticSearchP = None,
         enableKeywordSearchP = None\<rparr>)) = 0.1
   \<and> maxResults (config (updateConfig (newSearchService ())
        \<lparr>maxResultsP = Some 5, minScoreP = None, enableSemanticSearchP = None,
         enableKeywordSearchP = None\<rparr>)) = 5
   \<and> maxResults (config (mutateObject (fst (getConfig (newSearchService ())))
        (snd (getConfig (newSearchService ()))) (\<lambda>c. c\<lparr>maxResults := 99\<rparr>))) = 10"
proof -
  define p where "p = \<lparr>maxResultsP = Some 5, minScoreP = None, enableSemanticSearchP = None,
      enableKeywordSearchP = None\<rparr>"
  have wf: "wellFormed (newSearchService ())"
    by (rule wellFormed_new)
  have c0: "config (newSearchService ()) = defaultConfig"
    by (simp add: config_def newSearchService_def)
  have n: "minScoreP p = None"
    by (simp add: p_def)
  have t: "(minScoreP p = None \<longrightarrow>
        minScore (config (updateConfig (newSearchService ()) p)) = minScore (config (newSearchService ())))
      \<and> config (mutateObject (fst (getConfig (newSearchService ())))
        (snd (getConfig (newSearchService ()))) (\<lambda>c. c\<lparr>maxResults := 99\<rparr>))
        = config (newSearchService ())"
    using updateConfig_frame_getConfig_copy [OF wf, of p "\<lambda>c. c\<lparr>maxResults := 99\<rparr>"]
    by blast
  have a: "minScore (config (updateConfig (newSearchService ()) p)) = 0.1"
    using t n by (simp add: c0 defaultConfig_def)
  have b: "maxResults (config (mutateObject (fst (getConfig (newSearchService ())))
        (snd (getConfig (newSearchService ()))) (\<lambda>c. c\<lparr>maxResults := 99\<rparr>))) = 10"
    using t by (simp add: c0 defaultConfig_def)
  have c: "maxResults (config (updateConfig (newSearchService ()) p)) = 5"
    by (simp add: config_updateConfig c0 spreadConfig_def p_def)
  show ?thesis
    using wf n a b c unfolding p_def by blast
qed

section \<open>Properties of the regular expressions\<close>

lemma RegExp_unescaped_plus: "RegExp R ''c++'' ic = Inl SyntaxError"
  by (simp add: RegExp_def tokenOf_def)

lemma RegExp_unescaped_parens: "RegExp R ''((('' ic = Inl SyntaxError"
  by (simp add: RegExp_def tokenOf_def)

lemma RegExp_bounded_plus: "RegExp R (wordBoundary @ ''c++'' @ wordBoundary) ic = Inl SyntaxError"
  by (simp add: RegExp_def tokenOf_def wordBoundary_def)

lemma queryTerms_plus: "queryTerms ''c++'' = [''c++'']"
  by code_simp

lemma queryTerms_parens: "queryTerms ''((('' = [''((('']"
  by code_simp

section \<open>Errors of the search\<close>

lemma slice0_Nil: "slice0 [] n = []"
  by (simp add: slice0_def)

lemma sortByScore_Nil: "sortByScore [] = []"
  by (simp add: sortByScore_def)

lemma keywordSearch_rejected_term:
  assumes "sections st \<noteq> []" and "queryTerms q = t # ts" and "RegExp R t False = Inl e"
  shows "keywordSearch R st q n = Inl e"
proof -
  obtain s ss where "sections st = s # ss"
    using assms(1) by (cases "sections st") auto
  then show ?thesis
    using assms(2,3) by (simp add: keywordSearch_def)
qed

lemma search_keyword_error:
  assumes "enableKeywordSearch (config st)" and "keywordSearch R st q (limitOf st maxR) = Inl e"
  shows "search E R st q maxR = Inl e"
  using assms by (simp add: search_def Let_def)

lemma sections_unevenService:
  "sections unevenService = [brandColors\<lparr>embedding := Some [1, 1, 1]\<rparr>]"
  by (simp add: unevenService_def settle_def updateSections_def initialize_def wordVectorOps_def
      newSearchService_def brandColors_def isSpace_def)

lemma config_unevenService: "config unevenService = defaultConfig"
  by (simp add: unevenService_def settle_def updateSections_def initialize_def wordVectorOps_def
      newSearchService_def config_def)

lemma semanticSearch_unevenService:
  "semanticSearch wordVectorOps rejectingEngine unevenService ''brand'' n = []"
  by (simp add: semanticSearch_def wordVectorOps_def isSpace_def sections_unevenService
      cosineSimilarity_def)

text \<open>
  C9. There is a query that is neither empty nor blank and holds metacharacters of regular
  expressions, such as \<open>c++\<close> or \<open>(((\<close>, on which \<open>search\<close> throws instead of returning
  results: with the keyword strategy enabled and at least one section indexed, the term
  goes unescaped into \<open>new RegExp\<close> in the keyword scoring, whose \<open>SyntaxError\<close> \<open>search\<close>
  rethrows; the match reporting builds its pattern from the same unescaped term and
  throws as well.
\<close>

theorem search_throws_on_unescaped_term:
  assumes "enableKeywordSearch (config st)" and "sections st \<noteq> []"
  shows "\<not> blank ''c++'' \<and> \<not> blank ''((('' 
       \<and> search E R st ''c++'' maxR = Inl SyntaxError
       \<and> search E R st ''((('' maxR = Inl SyntaxError
       \<and> findMatches R ''c++'' text = Inl SyntaxError"
proof -
  have "keywordSearch R st ''c++'' (limitOf st maxR) = Inl SyntaxError"
    by (rule keywordSearch_rejected_term [OF assms(2) queryTerms_plus RegExp_unescaped_plus])
  then have a: "search E R st ''c++'' maxR = Inl SyntaxError"
    by (rule search_keyword_error [OF assms(1)])
  have "keywordSearch R st ''((('' (limitOf st maxR) = Inl SyntaxError"
    by (rule keywordSearch_rejected_term [OF assms(2) queryTerms_parens RegExp_unescaped_parens])
  then have b: "search E R st ''((('' maxR = Inl SyntaxError"
    by (rule search_keyword_error [OF assms(1)])
  have c: "findMatches R ''c++'' text = Inl SyntaxError"
    using RegExp_bounded_plus [of R True] by (simp add: findMatches_def queryTerms_plus)
  have d: "\<not> blank ''c++'' \<and> \<not> blank ''((('' "
    by (simp add: blank_def isSpace_def)
  show ?thesis using a b c d by simp
qed

theorem search_throws_on_unescaped_term_witness:
  "enableKeywordSearch (config unevenService) \<and> sections unevenService \<noteq> []
   \<and> search wordVectorOps rejectingEngine unevenService ''c++'' None = Inl SyntaxError"
proof -
  have k: "enableKeywordSearch (config unevenService)"
    by (simp add: config_unevenService defaultConfig_def)
  have s: "sections unevenService \<noteq> []"
    by (simp add: sections_unevenService)
  show ?thesis
    using search_throws_on_unescaped_term [OF k s, of wordVectorOps rejectingEngine None] k s
    by simp
qed

section \<open>Properties of the strings\<close>

lemma toLowerChar_cases:
  "toLowerChar c = c \<or> (c \<in> set upperCaseLetters \<and> toLowerChar c \<in> set lowerCaseLetters)"
proof (cases "map_of (zip upperCaseLetters lowerCaseLetters) c")
  case None
  then show ?thesis by (simp add: toLowerChar_def)
next
  case (Some d)
  then have "(c, d) \<in> set (zip upperCaseLetters lowerCaseLetters)"
    by (rule map_of_SomeD)
  then have "c \<in> set upperCaseLetters" and "d \<in> set lowerCaseLetters"
    by (auto dest: set_zip_leftD set_zip_rightD)
  then show ?thesis using Some by (simp add: toLowerChar_def)
qed

lemma letters_not_space:
  "\<forall>c\<in>set upperCaseLetters. \<not> isSpace c" "\<forall>c\<in>set lowerCaseLetters. \<not> isSpace c"
  by (simp_all add: upperCaseLetters_def lowerCaseLetters_def isSpace_def)

lemma isSpace_toLowerChar: "isSpace (toLowerChar c) = isSpace c"
  using toLowerChar_cases [of c] letters_not_space by auto

lemma letters_not_syntax:
  "\<forall>c\<in>set upperCaseLetters. c \<notin> set syntaxCharacters"
  "\<forall>c\<in>set lowerCaseLetters. c \<notin> set syntaxCharacters"
  by (simp_all add: upperCaseLetters_def lowerCaseLetters_def syntaxCharacters_def)

lemma syntax_toLowerChar: "toLowerChar c \<in> set syntaxCharacters \<longleftrightarrow> c \<in> set syntaxCharacters"
  using toLowerChar_cases [of c] letters_not_syntax by auto

lemma tokenOf_literal: "tokenOf c = Some (Chr c) \<longleftrightarrow> c \<notin> set syntaxCharacters"
  by (simp add: tokenOf_def syntaxCharacters_def)

lemma literal_tokens:
  assumes "literalTerm t"
  shows "\<forall>c\<in>set (toLowerCase t). tokenOf c = Some (Chr c)"
  using assms by (simp add: literalTerm_def toLowerCase_def list_all_iff tokenOf_literal syntax_toLowerChar)

lemma wsWords_spaces: "list_all isSpace s \<Longrightarrow> wsWords s = []"
  by (induction s) simp_all

lemma wsWords_starts: "s \<noteq> [] \<Longrightarrow> \<not> isSpace (hd s) \<Longrightarrow> wsWords s \<noteq> []"
  by (cases s) (auto split: list.splits)

lemma wsWords_append:
  assumes "a = [] \<or> isSpace (last a) \<or> b = [] \<or> isSpace (hd b)"
  shows "wsWords (a @ b) = wsWords a @ wsWords b"
  using assms
proof (induction a)
  case Nil
  show ?case by simp
next
  case (Cons c cs)
  show ?case
  proof (cases "cs = []")
    case True
    then show ?thesis
      using Cons.prems by (cases b) (auto split: list.splits)
  next
    case False
    then have ih: "wsWords (cs @ b) = wsWords cs @ wsWords b"
      using Cons by simp
    have hd: "hd (cs @ b) = hd cs"
      using False by simp
    show ?thesis
    proof (cases "isSpace c \<or> isSpace (hd cs)")
      case True
      then show ?thesis
        using False ih hd by auto
    next
      case False
      then have "wsWords cs \<noteq> []"
        using \<open>cs \<noteq> []\<close> wsWords_starts by blast
      then obtain w ws where "wsWords cs = w # ws"
        by (cases "wsWords cs") auto
      then show ?thesis
        using False \<open>cs \<noteq> []\<close> ih hd by simp
    qed
  qed
qed

lemma wsWords_dropWhile: "wsWords (dropWhile isSpace a) = wsWords a"
  by (induction a) simp_all

lemma wsWords_no_space:
  "s \<noteq> [] \<Longrightarrow> \<forall>c\<in>set s. \<not> isSpace c \<Longrightarrow> wsWords s = [s]"
proof (induction s)
  case Nil
  then show ?case by simp
next
  case (Cons c cs)
  show ?case
  proof (cases "cs = []")
    case True
    then show ?thesis using Cons.prems by simp
  next
    case False
    then have "wsWords cs = [cs]" using Cons by simp
    moreover have "\<not> isSpace (hd cs)" using False Cons.prems by (cases cs) simp_all
    ultimately show ?thesis using False Cons.prems by simp
  qed
qed

lemma wsWords_run:
  assumes "\<forall>c\<in>set w. \<not> isSpace c"
  shows "wsWords w = filter (\<lambda>x. x \<noteq> []) [w]"
  using assms wsWords_no_space [of w] by (cases "w = []") simp_all

lemma splitWs_words: "filter (\<lambda>w. w \<noteq> []) (splitWs s) = wsWords s"
proof (induction s rule: splitWs.induct)
  case (1 s)
  define w where "w = takeWhile (\<lambda>c. \<not> isSpace c) s"
  have w: "\<forall>c\<in>set w. \<not> isSpace c"
    unfolding w_def using set_takeWhileD by fastforce
  have s: "s = w @ dropWhile (\<lambda>c. \<not> isSpace c) s"
    by (simp add: w_def)
  show ?case
  proof (cases "dropWhile (\<lambda>c. \<not> isSpace c) s")
    case Nil
    have "w @ dropWhile (\<lambda>c. \<not> isSpace c) s = s"
      by (simp add: w_def)
    then have "s = w"
      unfolding Nil by simp
    moreover have "splitWs s = [s]"
      unfolding splitWs.simps [of s] Nil by simp
    ultimately show ?thesis
      using wsWords_run [OF w] by simp
  next
    case (Cons c cs)
    have c: "isSpace c"
      using hd_dropWhile [of "\<lambda>c. \<not> isSpace c" s] Cons by simp
    have ih: "filter (\<lambda>w. w \<noteq> []) (splitWs (dropWhile isSpace cs)) = wsWords (dropWhile isSpace cs)"
      using 1 [OF Cons] .
    have sp: "splitWs s = w # splitWs (dropWhile isSpace cs)"
      unfolding splitWs.simps [of s] Cons w_def by simp
    have "wsWords (w @ c # cs) = wsWords w @ wsWords (c # cs)"
      using c by (intro wsWords_append) simp
    also have "wsWords (c # cs) = wsWords (dropWhile isSpace cs)"
      using c by (simp add: wsWords_dropWhile)
    finally have "wsWords (w @ c # cs) = filter (\<lambda>x. x \<noteq> []) [w] @ wsWords (dropWhile isSpace cs)"
      by (simp only: wsWords_run [OF w])
    moreover have "s = w @ c # cs"
      using s Cons by simp
    ultimately have "wsWords s = filter (\<lambda>x. x \<noteq> []) [w] @ wsWords (dropWhile isSpace cs)"
      by simp
    then show ?thesis
      unfolding sp using ih by simp
  qed
qed

lemma wsWords_toLowerCase: "wsWords (toLowerCase s) = map toLowerCase (wsWords s)"
proof (induction s)
  case Nil
  show ?case by (simp add: toLowerCase_def)
next
  case (Cons c cs)
  have hd: "cs \<noteq> [] \<Longrightarrow> isSpace (hd (map toLowerChar cs)) = isSpace (hd cs)"
    by (cases cs) (simp_all add: isSpace_toLowerChar)
  show ?case
    using Cons hd
    by (cases "wsWords cs") (auto simp add: toLowerCase_def isSpace_toLowerChar)
qed

lemma queryTerms_termsOf: "queryTerms q = map toLowerCase (termsOf q)"
proof -
  have "filter (\<lambda>t. 2 < length t) (splitWs (toLowerCase q))
      = filter (\<lambda>t. 2 < length t) (filter (\<lambda>w. w \<noteq> []) (splitWs (toLowerCase q)))"
    by (simp add: conj_commute) (rule filter_cong, auto)
  also have "\<dots> = filter (\<lambda>t. 2 < length t) (map toLowerCase (wsWords q))"
    by (simp only: splitWs_words wsWords_toLowerCase)
  also have "\<dots> = map toLowerCase (filter (\<lambda>t. 2 < length t) (wsWords q))"
    by (simp add: filter_map comp_def toLowerCase_def)
  finally show ?thesis
    by (simp add: queryTerms_def termsOf_def)
qed

section \<open>The keyword strategy\<close>

lemma tokenOf_plain_chars:
  assumes "tokenOf c = Some (Chr c)"
  shows "c \<noteq> CHR 0x5C" and "c \<noteq> CHR ''(''"
  using assms by (auto simp add: tokenOf_def split: if_splits)

lemma tokenize_plain_append:
  assumes "\<forall>c\<in>set p. tokenOf c = Some (Chr c)"
  shows "tokenize (p @ rest) = map_option ((@) (map Chr p)) (tokenize rest)"
  using assms
proof (induction p)
  case Nil
  show ?case by (simp add: option.map_ident)
next
  case (Cons c p)
  have c: "tokenOf c = Some (Chr c)" "c \<noteq> CHR 0x5C" "c \<noteq> CHR ''(''"
    using Cons.prems tokenOf_plain_chars [of c] by simp_all
  have "tokenize (p @ rest) = map_option ((@) (map Chr p)) (tokenize rest)"
    using Cons by simp
  then show ?case
    using c by (simp add: option.map_comp comp_def)
qed

lemma tokenize_plain:
  assumes "\<forall>c\<in>set p. tokenOf c = Some (Chr c)"
  shows "tokenize p = Some (map Chr p)"
  using tokenize_plain_append [OF assms, of "[]"] by simp

lemma tokenize_wordBoundary: "tokenize (wordBoundary @ rest) = map_option ((#) WordB) (tokenize rest)"
  by (simp add: wordBoundary_def)

lemma tokenize_bounded_plain:
  assumes "\<forall>c\<in>set p. tokenOf c = Some (Chr c)"
  shows "tokenize (wordBoundary @ p @ wordBoundary) = Some (WordB # map Chr p @ [WordB])"
proof -
  have "tokenize wordBoundary = Some [WordB]"
    by (simp add: wordBoundary_def)
  then show ?thesis
    by (simp add: tokenize_wordBoundary tokenize_plain_append [OF assms])
qed

lemma validTokens_plain_append:
  "validTokens d b (map Chr p @ ts) = validTokens d (if p = [] then b else Atom) ts"
  by (induction p arbitrary: b) simp_all

lemma RegExp_plain:
  assumes "\<forall>c\<in>set p. tokenOf c = Some (Chr c)"
  shows "RegExp R p False = Inr (matchAll False (map Chr p) None)"
proof -
  have "validTokens 0 NoAtom (map Chr p)"
    using validTokens_plain_append [of 0 NoAtom p "[]"] by simp
  moreover have "list_all plainToken (map Chr p)"
    by (simp add: list_all_iff)
  ultimately show ?thesis
    by (simp add: RegExp_def tokenize_plain [OF assms])
qed

lemma RegExp_bounded_plain:
  assumes "\<forall>c\<in>set p. tokenOf c = Some (Chr c)"
  shows "RegExp R (wordBoundary @ p @ wordBoundary) True
       = Inr (matchAll True (WordB # map Chr p @ [WordB]) None)"
proof -
  have "validTokens 0 NoAtom (WordB # map Chr p @ [WordB])"
    by (simp add: validTokens_plain_append)
  moreover have "list_all plainToken (WordB # map Chr p @ [WordB])"
    by (simp add: list_all_iff)
  ultimately show ?thesis
    by (simp add: RegExp_def tokenize_bounded_plain [OF assms])
qed

lemma matchHere_literal:
  "matchHere False (map Chr p) prev s = (if prefix p s then Some p else None)"
proof (induction p arbitrary: prev s)
  case Nil
  show ?case by simp
next
  case (Cons c p)
  show ?case
    by (cases s) (simp_all add: Cons sameChar_def)
qed

lemma matchAll_occurrences:
  assumes "p \<noteq> []"
  shows "length (matchAll False (map Chr p) prev s) = occurrences p s"
proof (induction "length s" arbitrary: s prev rule: less_induct)
  case less
  show ?case
  proof (cases s)
    case Nil
    then show ?thesis
      using assms by (simp add: matchHere_literal occurrences.simps [of p "[]"])
  next
    case (Cons d ds)
    show ?thesis
    proof (cases "prefix p s")
      case True
      then have len: "length p \<le> length s"
        by (rule prefix_length_le)
      have dr: "drop (length p - 1) ds = drop (length p) s"
        using assms Cons by (cases p) simp_all
      have "length (drop (length p) s) < length s"
        using assms Cons by simp
      then have ih: "length (matchAll False (map Chr p) (Some (last p)) (drop (length p) s))
          = occurrences p (drop (length p) s)"
        by (rule less)
      have m: "matchAll False (map Chr p) prev (d # ds)
          = p # matchAll False (map Chr p) (Some (last p)) (drop (length p - 1) ds)"
        using True assms by (simp add: Cons matchHere_literal)
      have "occurrences p s = Suc (occurrences p (drop (length p) s))"
        using True assms len by (simp add: occurrences.simps [of p s])
      then show ?thesis
        using m ih dr by (simp add: Cons [symmetric])
    next
      case False
      have "length ds < length s"
        using Cons by simp
      then have ih: "length (matchAll False (map Chr p) (Some d) ds) = occurrences p ds"
        by (rule less)
      have m: "matchAll False (map Chr p) prev (d # ds) = matchAll False (map Chr p) (Some d) ds"
        using False by (simp add: Cons matchHere_literal)
      have "occurrences p s = occurrences p ds"
      proof (cases "length s < length p")
        case True
        then have "length ds < length p"
          using Cons by simp
        then show ?thesis
          using True by (simp add: occurrences.simps [of p s] occurrences.simps [of p ds])
      next
        case False
        then show ?thesis
          using \<open>\<not> prefix p s\<close> assms by (simp add: occurrences.simps [of p "d # ds"] Cons)
      qed
      then show ?thesis
        using m ih by (simp add: Cons)
    qed
  qed
qed

lemma termLoop_literal:
  assumes "\<forall>t\<in>set ts. t \<noteq> [] \<and> (\<forall>c\<in>set t. tokenOf c = Some (Chr c))"
  shows "termLoop R ttl body ts sc
       = Inr (sc + (\<Sum>t\<leftarrow>ts. 3 * occurrences t ttl + occurrences t body))"
  using assms
proof (induction ts arbitrary: sc)
  case Nil
  show ?case by simp
next
  case (Cons t ts)
  have t: "t \<noteq> []" "\<forall>c\<in>set t. tokenOf c = Some (Chr c)"
    using Cons.prems by simp_all
  have ih: "\<And>sc. termLoop R ttl body ts sc
       = Inr (sc + (\<Sum>t\<leftarrow>ts. 3 * occurrences t ttl + occurrences t body))"
    using Cons by simp
  show ?case
    by (simp add: RegExp_plain [OF t(2)] matchAll_occurrences [OF t(1)] ih)
qed

lemma findMatchesLoop_literal:
  assumes "\<forall>t\<in>set ts. \<forall>c\<in>set t. tokenOf c = Some (Chr c)"
  shows "\<exists>out. findMatchesLoop R s ts ms = Inr out"
  using assms
proof (induction ts arbitrary: ms)
  case Nil
  show ?case by simp
next
  case (Cons t ts)
  have t: "\<forall>c\<in>set t. tokenOf c = Some (Chr c)"
    using Cons.prems by simp
  show ?case
    using Cons by (simp add: RegExp_bounded_plain [OF t])
qed

lemma queryTerms_literal:
  assumes "\<forall>t\<in>set (termsOf q). literalTerm t"
  shows "\<forall>t\<in>set (queryTerms q). t \<noteq> [] \<and> (\<forall>c\<in>set t. tokenOf c = Some (Chr c))"
proof
  fix t
  assume "t \<in> set (queryTerms q)"
  then obtain w where w: "w \<in> set (termsOf q)" and t: "t = toLowerCase w"
    by (auto simp add: queryTerms_termsOf)
  have "2 < length w"
    using w by (simp add: termsOf_def)
  then have "t \<noteq> []"
    using t by (auto simp add: toLowerCase_def)
  moreover have "\<forall>c\<in>set t. tokenOf c = Some (Chr c)"
    unfolding t using assms w by (intro literal_tokens) blast
  ultimately show "t \<noteq> [] \<and> (\<forall>c\<in>set t. tokenOf c = Some (Chr c))"
    by blast
qed

lemma findMatches_literal:
  assumes "\<forall>t\<in>set (termsOf q). literalTerm t"
  shows "\<exists>ms. findMatches R q s = Inr ms"
proof -
  have "\<forall>t\<in>set (queryTerms q). \<forall>c\<in>set t. tokenOf c = Some (Chr c)"
    using queryTerms_literal [OF assms] by blast
  then obtain out where "findMatchesLoop R s (queryTerms q) [] = Inr out"
    using findMatchesLoop_literal by blast
  then show ?thesis
    by (simp add: findMatches_def)
qed

lemma rawScore_queryTerms:
  "(\<Sum>t\<leftarrow>queryTerms q. 3 * occurrences t (toLowerCase (title s))
        + occurrences t (toLowerCase (content s))) = rawScore (termsOf q) s"
  by (simp add: queryTerms_termsOf rawScore_def comp_def)

lemma keywordLoop_literal:
  assumes "\<forall>t\<in>set (termsOf q). literalTerm t"
  shows "\<exists>new. keywordLoop R q (queryTerms q) ss rs = Inr (rs @ new)
     \<and> map sectionOf new = filter (\<lambda>s. 0 < rawScore (termsOf q) s) ss
     \<and> (\<forall>r\<in>set new. score r = normalizedScore (termsOf q) (sectionOf r))"
proof (induction ss arbitrary: rs)
  case Nil
  show ?case by simp
next
  case (Cons s ss)
  have sc: "termLoop R (toLowerCase (title s)) (toLowerCase (content s)) (queryTerms q) 0
      = Inr (rawScore (termsOf q) s)"
    using termLoop_literal [OF queryTerms_literal [OF assms], of R "toLowerCase (title s)"
        "toLowerCase (content s)" 0]
    by (simp add: rawScore_queryTerms)
  have len: "length (queryTerms q) = length (termsOf q)"
    by (simp add: queryTerms_termsOf)
  show ?case
  proof (cases "0 < rawScore (termsOf q) s")
    case True
    obtain ms where ms: "findMatches R q (content s) = Inr ms"
      using findMatches_literal [OF assms] by blast
    define r where "r = \<lparr>sectionOf = s,
        score = min (real (rawScore (termsOf q) s) / (real (length (queryTerms q)) * 5)) 1,
        matches = ms\<rparr>"
    obtain new where new: "keywordLoop R q (queryTerms q) ss (rs @ [r]) = Inr ((rs @ [r]) @ new)"
      "map sectionOf new = filter (\<lambda>s. 0 < rawScore (termsOf q) s) ss"
      "\<forall>r\<in>set new. score r = normalizedScore (termsOf q) (sectionOf r)"
      using Cons [of "rs @ [r]"] by blast
    have "keywordLoop R q (queryTerms q) (s # ss) rs = Inr (rs @ (r # new))"
      using new(1) True by (simp add: sc ms r_def)
    moreover have "map sectionOf (r # new) = filter (\<lambda>s. 0 < rawScore (termsOf q) s) (s # ss)"
      using new(2) True by (simp add: r_def)
    moreover have "\<forall>x\<in>set (r # new). score x = normalizedScore (termsOf q) (sectionOf x)"
      using new(3) by (simp add: r_def normalizedScore_def len)
    ultimately show ?thesis
      by blast
  next
    case False
    obtain new where new: "keywordLoop R q (queryTerms q) ss rs = Inr (rs @ new)"
      "map sectionOf new = filter (\<lambda>s. 0 < rawScore (termsOf q) s) ss"
      "\<forall>r\<in>set new. score r = normalizedScore (termsOf q) (sectionOf r)"
      using Cons [of rs] by blast
    have "keywordLoop R q (queryTerms q) (s # ss) rs = Inr (rs @ new)"
      using new(1) False by (simp add: sc)
    then show ?thesis
      using new(2,3) False by auto
  qed
qed

lemma keywordSearch_literal:
  assumes "\<forall>t\<in>set (termsOf q). literalTerm t"
  shows "\<exists>all. keywordSearch R st q n = Inr (Promise (slice0 (sortByScore all) n))
     \<and> map sectionOf all = filter (\<lambda>s. 0 < rawScore (termsOf q) s) (sections st)
     \<and> (\<forall>r\<in>set all. score r = normalizedScore (termsOf q) (sectionOf r))"
proof -
  obtain new where new: "keywordLoop R q (queryTerms q) (sections st) [] = Inr ([] @ new)"
    "map sectionOf new = filter (\<lambda>s. 0 < rawScore (termsOf q) s) (sections st)"
    "\<forall>r\<in>set new. score r = normalizedScore (termsOf q) (sectionOf r)"
    using keywordLoop_literal [OF assms] by blast
  have "keywordSearch R st q n = Inr (Promise (slice0 (sortByScore new) n))"
    using new(1) by (simp add: keywordSearch_def)
  then show ?thesis
    using new(2,3) by blast
qed

lemma normalizedScore_range: "0 \<le> normalizedScore ts s \<and> normalizedScore ts s \<le> 1"
  by (simp add: normalizedScore_def)

lemma set_slice0: "set (slice0 xs n) \<subseteq> set xs"
  by (auto simp add: slice0_def dest: in_set_takeD)

lemma set_sortByScore: "set (sortByScore xs) = set xs"
  by (simp add: sortByScore_def)

section \<open>The un-awaited promise\<close>

lemma search_keyword_TypeError:
  assumes "enableKeywordSearch (config st)" and "keywordSearch R st q (limitOf st maxR) = Inr p"
  shows "search E R st q maxR = Inl TypeError"
proof -
  obtain rs where "p = Promise rs"
    using assms(2) by (auto simp add: keywordSearch_def split: sum.splits)
  then show ?thesis
    using assms by (simp add: search_def Let_def mergeResults_def)
qed

lemma search_keyword_throws:
  assumes "enableKeywordSearch (config st)"
  shows "search E R st q maxR \<noteq> Inr resp"
proof (cases "keywordSearch R st q (limitOf st maxR)")
  case (Inl e)
  then show ?thesis
    using assms by (simp add: search_def Let_def)
next
  case (Inr p)
  then show ?thesis
    using search_keyword_TypeError [OF assms Inr] by simp
qed

lemma search_literal_TypeError:
  assumes "enableKeywordSearch (config st)" and "\<forall>t\<in>set (termsOf q). literalTerm t"
  shows "search E R st q maxR = Inl TypeError"
proof -
  obtain p where "keywordSearch R st q (limitOf st maxR) = Inr p"
    using keywordSearch_literal [OF assms(2)] by blast
  then show ?thesis
    by (rule search_keyword_TypeError [OF assms(1)])
qed

lemma search_vector_only:
  assumes "\<not> enableKeywordSearch (config st)"
  shows "search E R st q maxR =
     Inr \<lparr>query = q,
          results = slice0 (sortByScore
            (if enableSemanticSearch (config st) then semanticSearch E R st q (limitOf st maxR)
             else [])) (limitOf st maxR),
          totalResults = length (slice0 (sortByScore
            (if enableSemanticSearch (config st) then semanticSearch E R st q (limitOf st maxR)
             else [])) (limitOf st maxR))\<rparr>"
  using assms by (simp add: search_def Let_def)

lemma config_initialize: "config (fst (initialize E st secs)) = config st"
  by (simp add: initialize_def config_def split: sum.splits)

lemma pending_initialize: "pending (fst (initialize E st secs)) = pending st"
  by (simp add: initialize_def split: sum.splits)

lemma config_updateSections: "config (updateSections st secs) = config st"
  by (simp add: updateSections_def config_def)

lemma config_settle: "config (settle E st k) = config st"
  by (simp add: settle_def config_initialize) (simp add: config_def)

lemma config_new: "config (newSearchService es) = defaultConfig"
  by (simp add: config_def newSearchService_def)

lemma keywordLoop_no_terms: "keywordLoop R q [] ss rs = Inr rs"
  by (induction ss arbitrary: rs) simp_all

lemma termsOf_blank:
  assumes "blank q"
  shows "termsOf q = []"
  using assms by (simp add: termsOf_def blank_def wsWords_spaces)

lemma termsOf_examples:
  "termsOf ''brand'' = [''brand'']" "termsOf ''logo'' = [''logo'']"
  "termsOf ''brand colors'' = [''brand'', ''colors'']"
  by code_simp+

lemma literalTerm_examples:
  "literalTerm ''brand''" "literalTerm ''logo''" "literalTerm ''colors''"
  by (simp_all add: literalTerm_def syntaxCharacters_def)

lemma blank_empty: "blank ''''"
  by (simp add: blank_def)

lemma sqrt_25: "sqrt 25 = 5"
proof -
  have "sqrt (5 * 5) = \<bar>5 :: real\<bar>"
    by (rule real_sqrt_abs2)
  then show ?thesis by simp
qed

lemma exampleVector_examples:
  "exampleVector ''brand'' = [1, 0]"
  "exampleVector ''Brand rules brand logo and brand colors'' = [3, 4]"
  "exampleVector ''Brand brand'' = [2, 0]"
  "exampleVector ''BRAND Brand'' = [2, 0]"
  by (simp_all add: exampleVector_def toLowerCase_def toLowerChar_def upperCaseLetters_def
      lowerCaseLetters_def isSpace_def)

lemma sections_rankedService:
  "sections rankedService =
     [mixedSection\<lparr>embedding := Some [3, 4]\<rparr>, brandSection\<lparr>embedding := Some [2, 0]\<rparr>,
      brandAgain\<lparr>embedding := Some [2, 0]\<rparr>]"
  by (simp add: rankedService_def initialize_def exampleOps_def exampleVector_examples
      mixedSection_def brandSection_def brandAgain_def)

lemma config_rankedService:
  "config rankedService = defaultConfig\<lparr>enableKeywordSearch := False\<rparr>"
  by (simp add: rankedService_def config_initialize config_updateConfig config_new
      spreadConfig_def keywordOff_def defaultConfig_def)

lemma findMatches_ranked:
  "findMatches rejectingEngine ''brand'' (content mixedSection) = Inr [''brand'']"
  "findMatches rejectingEngine ''brand'' (content brandSection) = Inr [''brand'']"
  "findMatches rejectingEngine ''brand'' (content brandAgain) = Inr [''Brand'']"
  by code_simp+

lemma embeddingService_rankedService: "embeddingService rankedService = ()"
  by simp

text \<open>What \<open>mergeResults\<close> does with an array and with a promise: a section found by both
  strategies gets the weighted score when the keyword results are an array.\<close>

lemma mergeResults_blend:
  assumes "ident (sectionOf a) = ident (sectionOf b)" and "0 < n"
  shows "mergeResults [a] (Array [b]) n
       = Inr [a\<lparr>score := score a * 0.6 + score b * 0.4,
                 matches := dedupe (matches a @ matches b)\<rparr>]"
  using assms
  by (simp add: mergeResults_def mergedMap_def addSemantic_def addKeyword_def sortByScore_def
      slice0_def)

lemma mergeResults_promise: "mergeResults sem (Promise kw) n = Inl TypeError"
  by (simp add: mergeResults_def)

text \<open>
  C1. No search merges the candidates of the two strategies. With the keyword strategy
  enabled \<open>search\<close> never returns a response: it throws what \<open>keywordSearch\<close> throws, and
  otherwise the \<open>TypeError\<close> of the loop of \<open>mergeResults\<close> over the promise that it was
  handed; for a query whose terms are literal that is the outcome. The scores
  \<open>0.6 * vectorScore + 0.4 * keywordScore\<close> of \<open>mergeResults\<close> reach no caller.
\<close>

theorem search_never_merges:
  assumes "enableKeywordSearch (config st)"
  shows "search E R st q maxR \<noteq> Inr resp
       \<and> (keywordSearch R st q (limitOf st maxR) = Inr p \<longrightarrow> search E R st q maxR = Inl TypeError)
       \<and> ((\<forall>t\<in>set (termsOf q). literalTerm t) \<longrightarrow> search E R st q maxR = Inl TypeError)"
  using search_keyword_throws [OF assms] search_keyword_TypeError [OF assms]
    search_literal_TypeError [OF assms]
  by blast

lemma config_hybridService: "config hybridService = defaultConfig"
  by (simp add: hybridService_def config_initialize config_new)

lemma sections_hybridService:
  "sections hybridService =
     [mixedSection\<lparr>embedding := Some [3, 4]\<rparr>, brandSection\<lparr>embedding := Some [2, 0]\<rparr>,
      brandAgain\<lparr>embedding := Some [2, 0]\<rparr>]"
  by (simp add: hybridService_def initialize_def exampleOps_def exampleVector_examples
      mixedSection_def brandSection_def brandAgain_def)

lemma semanticSearch_hybridService:
  "semanticSearch exampleOps rejectingEngine hybridService ''brand'' 10
   = [\<lparr>sectionOf = brandSection\<lparr>embedding := Some [2, 0]\<rparr>, score = 1, matches = [''brand'']\<rparr>,
      \<lparr>sectionOf = brandAgain\<lparr>embedding := Some [2, 0]\<rparr>, score = 1, matches = [''Brand'']\<rparr>,
      \<lparr>sectionOf = mixedSection\<lparr>embedding := Some [3, 4]\<rparr>, score = 3 / 5, matches = [''brand'']\<rparr>]"
  using findMatches_ranked
  by (simp add: semanticSearch_def sections_hybridService config_hybridService exampleOps_def
      exampleVector_examples cosineSimilarity_def defaultConfig_def sqrt_25 sortByScore_def
      slice0_def)

lemma queryTerms_brand: "queryTerms ''brand'' = [''brand'']"
  by code_simp

lemma keywordLoop_brand:
  "keywordLoop rejectingEngine ''brand'' [''brand'']
     [mixedSection\<lparr>embedding := Some [3, 4]\<rparr>, brandSection\<lparr>embedding := Some [2, 0]\<rparr>,
      brandAgain\<lparr>embedding := Some [2, 0]\<rparr>] []
   = Inr [\<lparr>sectionOf = mixedSection\<lparr>embedding := Some [3, 4]\<rparr>, score = 1, matches = [''brand'']\<rparr>,
          \<lparr>sectionOf = brandSection\<lparr>embedding := Some [2, 0]\<rparr>, score = 4 / 5,
           matches = [''brand'']\<rparr>,
          \<lparr>sectionOf = brandAgain\<lparr>embedding := Some [2, 0]\<rparr>, score = 4 / 5,
           matches = [''Brand'']\<rparr>]"
  by code_simp

lemma keywordSearch_brand:
  "keywordSearch rejectingEngine hybridService ''brand'' 10
   = Inr (Promise
       [\<lparr>sectionOf = mixedSection\<lparr>embedding := Some [3, 4]\<rparr>, score = 1, matches = [''brand'']\<rparr>,
        \<lparr>sectionOf = brandSection\<lparr>embedding := Some [2, 0]\<rparr>, score = 4 / 5,
         matches = [''brand'']\<rparr>,
        \<lparr>sectionOf = brandAgain\<lparr>embedding := Some [2, 0]\<rparr>, score = 4 / 5,
         matches = [''Brand'']\<rparr>])"
  unfolding keywordSearch_def sections_hybridService queryTerms_brand keywordLoop_brand
  by (simp add: sortByScore_def slice0_def)

theorem search_never_merges_witness:
  "enableKeywordSearch (config (fst (initialize exampleOps (newSearchService ()) testSections)))
   \<and> termsOf ''brand'' = [''brand''] \<and> literalTerm ''brand''
   \<and> search exampleOps rejectingEngine
       (fst (initialize exampleOps (newSearchService ()) testSections)) ''brand'' None
     = Inl TypeError
   \<and> enableKeywordSearch (config hybridService)
   \<and> semanticSearch exampleOps rejectingEngine hybridService ''brand'' 10
     = [\<lparr>sectionOf = brandSection\<lparr>embedding := Some [2, 0]\<rparr>, score = 1, matches = [''brand'']\<rparr>,
        \<lparr>sectionOf = brandAgain\<lparr>embedding := Some [2, 0]\<rparr>, score = 1, matches = [''Brand'']\<rparr>,
        \<lparr>sectionOf = mixedSection\<lparr>embedding := Some [3, 4]\<rparr>, score = 3 / 5,
         matches = [''brand'']\<rparr>]
   \<and> keywordSearch rejectingEngine hybridService ''brand'' 10
     = Inr (Promise
         [\<lparr>sectionOf = mixedSection\<lparr>embedding := Some [3, 4]\<rparr>, score = 1, matches = [''brand'']\<rparr>,
          \<lparr>sectionOf = brandSection\<lparr>embedding := Some [2, 0]\<rparr>, score = 4 / 5,
           matches = [''brand'']\<rparr>,
          \<lparr>sectionOf = brandAgain\<lparr>embedding := Some [2, 0]\<rparr>, score = 4 / 5,
           matches = [''Brand'']\<rparr>])
   \<and> search exampleOps rejectingEngine hybridService ''brand'' None = Inl TypeError"
proof -
  define st where "st = fst (initialize exampleOps (newSearchService ()) testSections)"
  have k: "enableKeywordSearch (config st)"
    by (simp add: st_def config_initialize config_new defaultConfig_def)
  have l: "\<forall>t\<in>set (termsOf ''brand''). literalTerm t"
    by (simp add: termsOf_examples literalTerm_examples)
  have a: "search exampleOps rejectingEngine st ''brand'' None = Inl TypeError"
    using search_never_merges [OF k, of exampleOps rejectingEngine "''brand''" None] l
    by blast
  have h: "enableKeywordSearch (config hybridService)"
    by (simp add: config_hybridService defaultConfig_def)
  have "limitOf hybridService None = 10"
    by (simp add: limitOf_def config_hybridService defaultConfig_def)
  then have b: "search exampleOps rejectingEngine hybridService ''brand'' None = Inl TypeError"
    using search_never_merges [OF h, of exampleOps rejectingEngine "''brand''" None]
      keywordSearch_brand
    by simp
  show ?thesis
    using k a h b termsOf_examples literalTerm_examples semanticSearch_hybridService
      keywordSearch_brand
    unfolding st_def by simp
qed

text \<open>
  C2. With the keyword strategy enabled, as it is by default, \<open>search\<close> throws a
  \<open>TypeError\<close> on every empty or blank query: the keyword strategy finds no term and
  resolves to no result, and \<open>mergeResults\<close> fails on the promise. The route refuses such
  a query before the search with a \<open>ValidationError\<close>.
\<close>

theorem blank_query_throws:
  assumes "blank q" and "enableKeywordSearch (config st)"
  shows "keywordSearch R st q n = Inr (Promise [])
       \<and> search E R st q maxR = Inl TypeError
       \<and> (\<exists>msg. searchRoute E R st (Some q) limit = Inl (ValidationError msg))"
proof -
  have t: "termsOf q = []"
    by (rule termsOf_blank [OF assms(1)])
  have "queryTerms q = []"
    by (simp add: queryTerms_termsOf t)
  then have a: "keywordSearch R st q n = Inr (Promise [])"
    by (simp add: keywordSearch_def keywordLoop_no_terms sortByScore_def slice0_def)
  have b: "search E R st q maxR = Inl TypeError"
    by (rule search_literal_TypeError [OF assms(2)]) (simp add: t)
  have d: "dropWhile isSpace q = []"
    using assms(1) by (simp add: blank_def list_all_iff)
  have "trim q = []"
    unfolding trim_def d by simp
  then have c: "\<exists>msg. searchRoute E R st (Some q) limit = Inl (ValidationError msg)"
    by (simp add: searchRoute_def)
  show ?thesis
    using a b c by blast
qed

theorem blank_query_throws_witness:
  "blank ''''
   \<and> enableKeywordSearch (config (fst (initialize exampleOps (newSearchService ()) testSections)))
   \<and> search exampleOps rejectingEngine
       (fst (initialize exampleOps (newSearchService ()) testSections)) '''' None
     = Inl TypeError"
proof -
  define st where "st = fst (initialize exampleOps (newSearchService ()) testSections)"
  have k: "enableKeywordSearch (config st)"
    by (simp add: st_def config_initialize config_new defaultConfig_def)
  have "search exampleOps rejectingEngine st '''' None = Inl TypeError"
    using blank_query_throws [OF blank_empty k, of rejectingEngine 0 exampleOps None None]
    by blast
  then show ?thesis
    using k blank_empty unfolding st_def by simp
qed

lemma embedSections_exampleOps:
  "embedSections exampleOps es secs
   = Inr (map (\<lambda>s. s\<lparr>embedding := Some (exampleVector (title s @ '' '' @ content s))\<rparr>) secs)"
  by (induction secs) (simp_all add: exampleOps_def)

lemma idents_initialize_exampleOps:
  "map ident (sections (fst (initialize exampleOps st secs))) = map ident secs"
proof -
  have e: "embInitialize exampleOps (embeddingService st) = Inr (embeddingService st)"
    by (simp add: exampleOps_def)
  show ?thesis
    unfolding initialize_def e embedSections_exampleOps by (simp add: comp_def)
qed

lemma rawScore_logo: "rawScore (termsOf ''logo'') logosSection = 4"
  by code_simp

lemma rawScore_logo_old: "list_all (\<lambda>s. rawScore (termsOf ''logo'') s = 0) testSections"
  by code_simp

text \<open>
  C7. The test of the repository: after \<open>initialize(testSections)\<close> the call
  \<open>updateSections([...testSections, logosSection])\<close> returns with the old index; once its
  promise has settled, whatever the embedding service does, the search for \<open>logo\<close>, a
  term that occurs in the new section and in no old one, returns no result: it throws the
  \<open>TypeError\<close> of \<open>mergeResults\<close>. With the embedding service of the examples the index
  holds the new section then.
\<close>

theorem updated_term_search_throws:
  "sections (updateSections st secs) = sections st
   \<and> pending (settle E (updateSections (fst (initialize E (newSearchService es) testSections))
                  (testSections @ [logosSection])) 0) = []
   \<and> search E R
       (settle E (updateSections (fst (initialize E (newSearchService es) testSections))
                  (testSections @ [logosSection])) 0)
       ''logo'' maxR
     = Inl TypeError
   \<and> map ident (sections
         (settle exampleOps
            (updateSections (fst (initialize exampleOps (newSearchService ()) testSections))
               (testSections @ [logosSection])) 0))
     = [''section-1'', ''section-2'', ''section-3'', ''section-4'']
   \<and> rawScore (termsOf ''logo'') logosSection = 4
   \<and> list_all (\<lambda>s. rawScore (termsOf ''logo'') s = 0) testSections"
proof -
  define st0 where "st0 = fst (initialize E (newSearchService es) testSections)"
  define st2 where "st2 = settle E (updateSections st0 (testSections @ [logosSection])) 0"
  have a: "sections (updateSections st secs) = sections st"
    by (simp add: updateSections_def)
  have p0: "pending st0 = []"
    by (simp add: st0_def pending_initialize newSearchService_def)
  have b: "pending st2 = []"
    by (simp add: st2_def settle_def updateSections_def p0 pending_initialize)
  have k: "enableKeywordSearch (config st2)"
    by (simp add: st2_def st0_def config_settle config_updateSections config_initialize
        config_new defaultConfig_def)
  have l: "\<forall>t\<in>set (termsOf ''logo''). literalTerm t"
    by (simp add: termsOf_examples literalTerm_examples)
  have c: "search E R st2 ''logo'' maxR = Inl TypeError"
    by (rule search_literal_TypeError [OF k l])
  have "pending (fst (initialize exampleOps (newSearchService ()) testSections)) = []"
    by (simp add: pending_initialize newSearchService_def)
  then have d: "map ident (sections
         (settle exampleOps
            (updateSections (fst (initialize exampleOps (newSearchService ()) testSections))
               (testSections @ [logosSection])) 0))
     = [''section-1'', ''section-2'', ''section-3'', ''section-4'']"
    by (simp add: settle_def updateSections_def idents_initialize_exampleOps)
      (simp add: testSections_def logosSection_def)
  show ?thesis
    using a b c d rawScore_logo rawScore_logo_old unfolding st2_def st0_def by simp
qed

section \<open>Examples of the vector strategy\<close>

lemma semanticSearch_rankedService:
  "semanticSearch exampleOps rejectingEngine rankedService ''brand'' 10
   = [\<lparr>sectionOf = brandSection\<lparr>embedding := Some [2, 0]\<rparr>, score = 1, matches = [''brand'']\<rparr>,
      \<lparr>sectionOf = brandAgain\<lparr>embedding := Some [2, 0]\<rparr>, score = 1, matches = [''Brand'']\<rparr>,
      \<lparr>sectionOf = mixedSection\<lparr>embedding := Some [3, 4]\<rparr>, score = 3 / 5, matches = [''brand'']\<rparr>]"
  using findMatches_ranked
  by (simp add: semanticSearch_def sections_rankedService config_rankedService exampleOps_def
      exampleVector_examples cosineSimilarity_def defaultConfig_def sqrt_25 sortByScore_def
      slice0_def)


section \<open>The order of the results\<close>

lemma slice0_take: "\<exists>k. slice0 xs n = take k xs"
  by (auto simp add: slice0_def)

lemma sorted_sortByScore: "sorted (map (\<lambda>r. - score r) (sortByScore xs))"
  by (simp add: sortByScore_def)

lemma sorted_take_scores:
  "sorted (map (\<lambda>r. - score r) xs) \<Longrightarrow> sorted (map (\<lambda>r. - score r) (take k xs))"
  by (simp add: take_map [symmetric] sorted_wrt_take)

lemma sortByScore_sorted: "sorted (map (\<lambda>r. - score r) xs) \<Longrightarrow> sortByScore xs = xs"
  by (simp add: sortByScore_def sort_key_id_if_sorted)

lemma sortByScore_stable:
  "filter (\<lambda>r. score r = x) (sortByScore xs) = filter (\<lambda>r. score r = x) xs"
proof -
  have "filter (\<lambda>r. - score r = - x) (sort_key (\<lambda>r. - score r) xs)
      = filter (\<lambda>r. - score r = - x) xs"
    by (rule sort_key_stable)
  then show ?thesis by (simp add: sortByScore_def)
qed


lemma prefix_filter_take: "prefix (filter P (take k xs)) (filter P xs)"
proof -
  have "filter P xs = filter P (take k xs) @ filter P (drop k xs)"
    by (metis append_take_drop_id filter_append)
  then show ?thesis by (simp add: prefix_def)
qed


lemma top_of_top:
  "\<exists>k. slice0 (sortByScore (take j (sortByScore xs))) m = take k (sortByScore xs)"
proof -
  have "sorted (map (\<lambda>r. - score r) (take j (sortByScore xs)))"
    by (rule sorted_take_scores [OF sorted_sortByScore])
  then have s: "sortByScore (take j (sortByScore xs)) = take j (sortByScore xs)"
    by (rule sortByScore_sorted)
  obtain i where "slice0 (take j (sortByScore xs)) m = take i (take j (sortByScore xs))"
    using slice0_take by blast
  then have "slice0 (sortByScore (take j (sortByScore xs))) m = take (min i j) (sortByScore xs)"
    by (simp add: s)
  then show ?thesis by blast
qed

lemma ties_of_top:
  assumes "rs = take k (sortByScore xs)"
  shows "sorted (map (\<lambda>r. - score r) rs)"
    and "prefix (filter (\<lambda>r. score r = x) rs) (filter (\<lambda>r. score r = x) xs)"
proof -
  show "sorted (map (\<lambda>r. - score r) rs)"
    unfolding assms by (rule sorted_take_scores [OF sorted_sortByScore])
  have "prefix (filter (\<lambda>r. score r = x) rs) (filter (\<lambda>r. score r = x) (sortByScore xs))"
    unfolding assms by (rule prefix_filter_take)
  then show "prefix (filter (\<lambda>r. score r = x) rs) (filter (\<lambda>r. score r = x) xs)"
    by (simp add: sortByScore_stable)
qed

text \<open>The candidates of the vector strategy are pushed in the order of the index.\<close>

lemma semanticLoop_subseq:
  assumes "semanticLoop R minS qe q ss rs = Inr out"
  shows "\<exists>new. out = rs @ new \<and> subseq (map sectionOf new) ss"
  using assms
proof (induction ss arbitrary: rs)
  case Nil
  then show ?case by simp
next
  case (Cons s ss)
  consider (skip) "semanticLoop R minS qe q ss rs = Inr out"
    | (push) sim ms where
        "semanticLoop R minS qe q ss (rs @ [\<lparr>sectionOf = s, score = sim, matches = ms\<rparr>]) = Inr out"
    using Cons.prems by (auto split: option.splits sum.splits if_splits)
  then show ?case
  proof cases
    case skip
    then obtain new where "out = rs @ new" "subseq (map sectionOf new) ss"
      using Cons.IH by blast
    then show ?thesis
      by auto
  next
    case push
    then obtain new where new: "out = (rs @ [\<lparr>sectionOf = s, score = sim, matches = ms\<rparr>]) @ new"
      "subseq (map sectionOf new) ss"
      using Cons.IH by blast
    have "out = rs @ (\<lparr>sectionOf = s, score = sim, matches = ms\<rparr> # new)"
      using new(1) by simp
    moreover have "subseq (map sectionOf (\<lparr>sectionOf = s, score = sim, matches = ms\<rparr> # new)) (s # ss)"
      using new(2) by simp
    ultimately show ?thesis
      by blast
  qed
qed

lemma semanticSearch_candidates:
  "\<exists>cands k. semanticSearch E R st q n = take k (sortByScore cands)
     \<and> subseq (map sectionOf cands) (sections st)"
proof (cases "\<exists>qe out. isReady E (embeddingService st)
    \<and> generateEmbedding E (embeddingService st) q = Inr qe
    \<and> semanticLoop R (minScore (config st)) qe q (sections st) [] = Inr out")
  case True
  then obtain qe out where r: "isReady E (embeddingService st)"
    and qe: "generateEmbedding E (embeddingService st) q = Inr qe"
    and out: "semanticLoop R (minScore (config st)) qe q (sections st) [] = Inr out"
    by blast
  have s: "semanticSearch E R st q n = slice0 (sortByScore out) n"
    using r qe out by (simp add: semanticSearch_def)
  obtain k where k: "slice0 (sortByScore out) n = take k (sortByScore out)"
    using slice0_take by blast
  have "subseq (map sectionOf out) (sections st)"
    using semanticLoop_subseq [OF out] by simp
  then show ?thesis
    using s k by metis
next
  case False
  then have "semanticSearch E R st q n = []"
    by (auto simp add: semanticSearch_def split: sum.splits)
  then have "semanticSearch E R st q n = take 0 (sortByScore [])
      \<and> subseq (map sectionOf []) (sections st)"
    by simp
  then show ?thesis
    by blast
qed

text \<open>
  C8. The results of every search that returns are in the order of descending score, and
  the results of one score stand in the order that their sections have in the index.
\<close>

theorem search_order:
  assumes "search E R st q maxR = Inr resp"
  shows "sorted_wrt (\<lambda>a b. score b \<le> score a) (results resp)
       \<and> subseq (map sectionOf (filter (\<lambda>r. score r = x) (results resp))) (sections st)
       \<and> totalResults resp = length (results resp)"
proof -
  have nk: "\<not> enableKeywordSearch (config st)"
    using assms search_keyword_throws [of st E R q maxR resp] by blast
  define sem where "sem = (if enableSemanticSearch (config st)
      then semanticSearch E R st q (limitOf st maxR) else [])"
  have resp: "resp = \<lparr>query = q, results = slice0 (sortByScore sem) (limitOf st maxR),
      totalResults = length (slice0 (sortByScore sem) (limitOf st maxR))\<rparr>"
    using assms search_vector_only [OF nk, of E R q maxR] by (simp add: sem_def)
  obtain cands j where sem: "sem = take j (sortByScore cands)"
    and sub: "subseq (map sectionOf cands) (sections st)"
  proof (cases "enableSemanticSearch (config st)")
    case True
    then show ?thesis
      using semanticSearch_candidates [of E R st q "limitOf st maxR"] that
      by (auto simp add: sem_def)
  next
    case False
    then have "sem = take 0 (sortByScore [])" "subseq (map sectionOf []) (sections st)"
      by (simp_all add: sem_def)
    then show ?thesis
      using that by blast
  qed
  obtain k where k: "results resp = take k (sortByScore cands)"
    using top_of_top [of j cands "limitOf st maxR"] by (auto simp add: resp sem)
  have "sorted (map (\<lambda>r. - score r) (results resp))"
    by (rule ties_of_top(1) [OF k])
  then have a: "sorted_wrt (\<lambda>a b. score b \<le> score a) (results resp)"
    by (simp add: sorted_map)
  have "prefix (filter (\<lambda>r. score r = x) (results resp)) (filter (\<lambda>r. score r = x) cands)"
    by (rule ties_of_top(2) [OF k])
  then have "subseq (filter (\<lambda>r. score r = x) (results resp)) cands"
    using subseq_filter_left [of "\<lambda>r. score r = x" cands] prefix_imp_subseq
      subseq_order.trans by blast
  then have "subseq (map sectionOf (filter (\<lambda>r. score r = x) (results resp))) (map sectionOf cands)"
    by (rule subseq_map)
  then have b: "subseq (map sectionOf (filter (\<lambda>r. score r = x) (results resp))) (sections st)"
    using sub subseq_order.trans by blast
  have c: "totalResults resp = length (results resp)"
    by (simp add: resp)
  show ?thesis
    using a b c by blast
qed

lemma search_rankedService:
  "search exampleOps rejectingEngine rankedService ''brand'' None
   = Inr \<lparr>query = ''brand'',
          results =
            [\<lparr>sectionOf = brandSection\<lparr>embedding := Some [2, 0]\<rparr>, score = 1, matches = [''brand'']\<rparr>,
             \<lparr>sectionOf = brandAgain\<lparr>embedding := Some [2, 0]\<rparr>, score = 1, matches = [''Brand'']\<rparr>,
             \<lparr>sectionOf = mixedSection\<lparr>embedding := Some [3, 4]\<rparr>, score = 3 / 5,
              matches = [''brand'']\<rparr>],
          totalResults = 3\<rparr>"
proof -
  have nk: "\<not> enableKeywordSearch (config rankedService)"
    by (simp add: config_rankedService defaultConfig_def)
  have l: "limitOf rankedService None = 10"
    by (simp add: limitOf_def config_rankedService defaultConfig_def)
  show ?thesis
    unfolding search_vector_only [OF nk] l
    by (simp add: config_rankedService defaultConfig_def semanticSearch_rankedService
        sortByScore_def slice0_def)
qed

theorem search_order_witness:
  "search exampleOps rejectingEngine rankedService ''brand'' None
   = Inr \<lparr>query = ''brand'',
          results =
            [\<lparr>sectionOf = brandSection\<lparr>embedding := Some [2, 0]\<rparr>, score = 1, matches = [''brand'']\<rparr>,
             \<lparr>sectionOf = brandAgain\<lparr>embedding := Some [2, 0]\<rparr>, score = 1, matches = [''Brand'']\<rparr>,
             \<lparr>sectionOf = mixedSection\<lparr>embedding := Some [3, 4]\<rparr>, score = 3 / 5,
              matches = [''brand'']\<rparr>],
          totalResults = 3\<rparr>
   \<and> sections rankedService =
       [mixedSection\<lparr>embedding := Some [3, 4]\<rparr>, brandSection\<lparr>embedding := Some [2, 0]\<rparr>,
        brandAgain\<lparr>embedding := Some [2, 0]\<rparr>]
   \<and> subseq [brandSection\<lparr>embedding := Some [2, 0]\<rparr>, brandAgain\<lparr>embedding := Some [2, 0]\<rparr>]
       (sections rankedService)"
proof -
  have "subseq (map sectionOf (filter (\<lambda>r. score r = 1)
      [\<lparr>sectionOf = brandSection\<lparr>embedding := Some [2, 0]\<rparr>, score = 1, matches = [''brand'']\<rparr>,
       \<lparr>sectionOf = brandAgain\<lparr>embedding := Some [2, 0]\<rparr>, score = 1, matches = [''Brand'']\<rparr>,
       \<lparr>sectionOf = mixedSection\<lparr>embedding := Some [3, 4]\<rparr>, score = 3 / 5,
        matches = [''brand'']\<rparr>])) (sections rankedService)"
    using search_order [OF search_rankedService, of 1] by simp
  then have "subseq [brandSection\<lparr>embedding := Some [2, 0]\<rparr>, brandAgain\<lparr>embedding := Some [2, 0]\<rparr>]
       (sections rankedService)"
    by simp
  then show ?thesis
    using search_rankedService sections_rankedService by blast
qed

section \<open>Vectors of different dimensions\<close>

lemma semanticLoop_mismatch:
  assumes "s \<in> set ss" and "embedding s = Some v" and "length qe \<noteq> length v"
  shows "\<exists>e. semanticLoop R minS qe q ss rs = Inl e"
  using assms(1)
proof (induction ss arbitrary: rs)
  case Nil
  then show ?case by simp
next
  case (Cons x xs)
  show ?case
  proof (cases "x = s")
    case True
    then show ?thesis
      using assms(2,3) by (simp add: cosineSimilarity_def)
  next
    case False
    then have "s \<in> set xs" using Cons.prems by simp
    then have ih: "\<And>rs. \<exists>e. semanticLoop R minS qe q xs rs = Inl e"
      using Cons.IH by blast
    show ?thesis
      using ih by (auto split: option.splits sum.splits)
  qed
qed

lemma semanticSearch_mismatch:
  assumes "s \<in> set (sections st)" and "embedding s = Some v"
    and "generateEmbedding E (embeddingService st) q = Inr qe" and "length qe \<noteq> length v"
  shows "semanticSearch E R st q n = []"
proof -
  obtain e where "semanticLoop R (minScore (config st)) qe q (sections st) [] = Inl e"
    using semanticLoop_mismatch [OF assms(1,2,4)] by blast
  then show ?thesis
    using assms(3) by (simp add: semanticSearch_def)
qed

lemma semanticSearch_not_ready:
  "semanticSearch (E\<lparr>isReady := (\<lambda>es. False)\<rparr>) R st q n = []"
  by (simp add: semanticSearch_def)

lemma search_without_vectors:
  assumes "semanticSearch E R st q (limitOf st maxR) = []"
  shows "search E R st q maxR = search (E\<lparr>isReady := (\<lambda>es. False)\<rparr>) R st q maxR"
  unfolding search_def Let_def semanticSearch_not_ready assms by simp

lemma sections_unevenVectorOnly:
  "sections unevenVectorOnly = [brandColors\<lparr>embedding := Some [1, 1, 1]\<rparr>]"
  using sections_unevenService by (simp add: unevenVectorOnly_def updateConfig_def)

lemma config_unevenVectorOnly:
  "config unevenVectorOnly = defaultConfig\<lparr>enableKeywordSearch := False\<rparr>"
  by (simp add: unevenVectorOnly_def config_updateConfig config_unevenService spreadConfig_def
      keywordOff_def defaultConfig_def)

lemma generateEmbedding_brand:
  "generateEmbedding wordVectorOps (embeddingService unevenVectorOnly) ''brand'' = Inr [1]"
  by (simp add: wordVectorOps_def isSpace_def)

text \<open>
  C3, the claim as stated. The index holds a section with a vector of three dimensions,
  the vector of the query \<open>brand\<close> has one, and the keyword strategy is disabled: the
  search returns a response without results and throws nothing.
\<close>

theorem dimension_mismatch_counterexample:
  "sections unevenVectorOnly = [brandColors\<lparr>embedding := Some [1, 1, 1]\<rparr>]
   \<and> generateEmbedding wordVectorOps (embeddingService unevenVectorOnly) ''brand'' = Inr [1]
   \<and> cosineSimilarity [1] [1, 1, 1] = Inl VectorDimensionsMustMatch
   \<and> search wordVectorOps rejectingEngine unevenVectorOnly ''brand'' None
       = Inr \<lparr>query = ''brand'', results = [], totalResults = 0\<rparr>"
proof -
  have nk: "\<not> enableKeywordSearch (config unevenVectorOnly)"
    by (simp add: config_unevenVectorOnly defaultConfig_def)
  have sem: "semanticSearch wordVectorOps rejectingEngine unevenVectorOnly ''brand'' n = []" for n
    by (simp add: semanticSearch_def wordVectorOps_def isSpace_def sections_unevenVectorOnly
        cosineSimilarity_def)
  have "search wordVectorOps rejectingEngine unevenVectorOnly ''brand'' None
       = Inr \<lparr>query = ''brand'', results = [], totalResults = 0\<rparr>"
    unfolding search_vector_only [OF nk] by (simp add: sem sortByScore_def slice0_def)
  then show ?thesis
    using sections_unevenVectorOnly generateEmbedding_brand
    by (simp add: cosineSimilarity_def)
qed

text \<open>
  C3, amended. When the vector of the query and the vector of an indexed section differ in
  dimension, \<open>cosineSimilarity\<close> throws and neither truncates nor pads; \<open>semanticSearch\<close>
  catches the error and contributes no candidate, so that the search does what it does
  when the vector strategy is skipped because the embedding service is not ready; with the
  keyword strategy disabled it returns a response without results.
\<close>

theorem dimension_mismatch_is_caught:
  assumes "s \<in> set (sections st)" and "embedding s = Some v"
    and "generateEmbedding E (embeddingService st) q = Inr qe" and "length qe \<noteq> length v"
  shows "cosineSimilarity qe v = Inl VectorDimensionsMustMatch
       \<and> semanticSearch E R st q n = []
       \<and> search E R st q maxR = search (E\<lparr>isReady := (\<lambda>es. False)\<rparr>) R st q maxR
       \<and> (\<not> enableKeywordSearch (config st)
            \<longrightarrow> search E R st q maxR = Inr \<lparr>query = q, results = [], totalResults = 0\<rparr>)"
proof -
  have sem: "\<And>n. semanticSearch E R st q n = []"
    by (rule semanticSearch_mismatch [OF assms])
  have cos: "cosineSimilarity qe v = Inl VectorDimensionsMustMatch"
    using assms(4) by (simp add: cosineSimilarity_def)
  have same: "search E R st q maxR = search (E\<lparr>isReady := (\<lambda>es. False)\<rparr>) R st q maxR"
    by (rule search_without_vectors [OF sem])
  have "search E R st q maxR = Inr \<lparr>query = q, results = [], totalResults = 0\<rparr>"
    if "\<not> enableKeywordSearch (config st)"
    unfolding search_vector_only [OF that] by (simp add: sem sortByScore_def slice0_def)
  then show ?thesis
    using cos sem same by blast
qed

theorem dimension_mismatch_is_caught_witness:
  "brandColors\<lparr>embedding := Some [1, 1, 1]\<rparr> \<in> set (sections unevenVectorOnly)
   \<and> generateEmbedding wordVectorOps (embeddingService unevenVectorOnly) ''brand'' = Inr [1]
   \<and> length [1 :: real] \<noteq> length [1 :: real, 1, 1]
   \<and> \<not> enableKeywordSearch (config unevenVectorOnly)
   \<and> semanticSearch wordVectorOps rejectingEngine unevenVectorOnly ''brand'' 10 = []
   \<and> search wordVectorOps rejectingEngine unevenVectorOnly ''brand'' None
       = Inr \<lparr>query = ''brand'', results = [], totalResults = 0\<rparr>"
proof -
  have m: "brandColors\<lparr>embedding := Some [1, 1, 1]\<rparr> \<in> set (sections unevenVectorOnly)"
    by (simp add: sections_unevenVectorOnly)
  have e: "embedding (brandColors\<lparr>embedding := Some [1, 1, 1]\<rparr>) = Some [1, 1, 1]"
    by simp
  have l: "length [1 :: real] \<noteq> length [1 :: real, 1, 1]"
    by simp
  have nk: "\<not> enableKeywordSearch (config unevenVectorOnly)"
    by (simp add: config_unevenVectorOnly defaultConfig_def)
  show ?thesis
    using dimension_mismatch_is_caught [OF m e generateEmbedding_brand l,
        of rejectingEngine 10 None] m generateEmbedding_brand nk l
    by blast
qed

section \<open>The limit of the results\<close>

lemma digit_cases: "d < 10 \<Longrightarrow> d = 0 \<or> d = 1 \<or> d = 2 \<or> d = 3 \<or> d = 4 \<or> d = 5 \<or> d = 6 \<or> d = 7 \<or> d = 8 \<or> d = (9::nat)"
  by arith

lemma digitChar_props:
  assumes "d < 10"
  shows "isDigit (digitChar d)" and "digitValue (digitChar d) = d" and "\<not> isSpace (digitChar d)"
    and "digitChar d \<noteq> CHR ''-''" and "digitChar d \<noteq> CHR ''+''"
  using digit_cases [OF assms]
  by (auto simp add: digitChar_def isDigit_def digitValue_def isSpace_def)

lemma showNat_digits: "list_all isDigit (showNat n)"
proof (induction n rule: showNat.induct)
  case (1 n)
  show ?case
  proof (cases "n < 10")
    case True
    then show ?thesis by (simp add: showNat.simps [of n] digitChar_props)
  next
    case False
    then show ?thesis using 1 by (simp add: showNat.simps [of n] digitChar_props)
  qed
qed

lemma showNat_value: "foldl (\<lambda>n c. n * 10 + digitValue c) 0 (showNat n) = n"
proof (induction n rule: showNat.induct)
  case (1 n)
  show ?case
  proof (cases "n < 10")
    case True
    then show ?thesis by (simp add: showNat.simps [of n] digitChar_props)
  next
    case False
    then show ?thesis using 1 by (simp add: showNat.simps [of n] digitChar_props)
  qed
qed

lemma showNat_not_Nil: "showNat n \<noteq> []"
  by (simp add: showNat.simps [of n])

lemma parseInt10_digits:
  assumes "ds \<noteq> []" and "list_all isDigit ds"
  shows "parseInt10 ds = Some (int (foldl (\<lambda>n c. n * 10 + digitValue c) 0 ds))"
    and "parseInt10 (CHR ''-'' # ds) = Some (- int (foldl (\<lambda>n c. n * 10 + digitValue c) 0 ds))"
proof -
  obtain c cs where ds: "ds = c # cs"
    using assms(1) by (cases ds) auto
  have c: "isDigit c" using assms(2) ds by simp
  have ns: "\<not> isSpace c" "c \<noteq> CHR ''-''" "c \<noteq> CHR ''+''"
    using c by (auto simp add: isDigit_def isSpace_def)
  have dw: "dropWhile isSpace ds = ds"
    using ds ns by simp
  have t1: "take 1 ds \<noteq> ''-''" "take 1 ds \<noteq> ''+''"
    using ds ns by simp_all
  have tw: "takeWhile isDigit ds = ds"
    using assms(2) by (simp add: list_all_iff)
  show "parseInt10 ds = Some (int (foldl (\<lambda>n c. n * 10 + digitValue c) 0 ds))"
    unfolding parseInt10_def Let_def dw using t1 assms(1) by (simp add: tw)
  have "\<not> isSpace CHR ''-''" by (simp add: isSpace_def)
  then show "parseInt10 (CHR ''-'' # ds) = Some (- int (foldl (\<lambda>n c. n * 10 + digitValue c) 0 ds))"
    using assms(1) by (simp add: parseInt10_def Let_def tw)
qed

lemma parseInt10_showInt: "parseInt10 (showInt n) = Some n"
proof (cases "n < 0")
  case True
  then show ?thesis
    using parseInt10_digits(2) [OF showNat_not_Nil showNat_digits, of "nat (- n)"]
    by (simp add: showInt_def showNat_value)
next
  case False
  then show ?thesis
    using parseInt10_digits(1) [OF showNat_not_Nil showNat_digits, of "nat n"]
    by (simp add: showInt_def showNat_value)
qed

lemma length_slice0: "0 \<le> n \<Longrightarrow> length (slice0 xs n) \<le> nat n"
  by (simp add: slice0_def)

lemma search_limit:
  assumes "search E R st q (Some n) = Inr resp" and "1 \<le> n"
  shows "length (results resp) \<le> nat n \<and> totalResults resp = length (results resp)"
proof -
  have l: "limitOf st (Some n) = n"
    using assms(2) by (simp add: limitOf_def)
  obtain rs where "resp = \<lparr>query = q, results = slice0 (sortByScore rs) n,
        totalResults = length (slice0 (sortByScore rs) n)\<rparr>"
    using assms(1) by (auto simp add: search_def Let_def l split: sum.splits if_splits)
  then show ?thesis
    using length_slice0 [of n "sortByScore rs"] assms(2) by simp
qed

lemma semanticSearch_rankedService_limit:
  "semanticSearch exampleOps rejectingEngine rankedService ''brand'' n
   = slice0
      [\<lparr>sectionOf = brandSection\<lparr>embedding := Some [2, 0]\<rparr>, score = 1, matches = [''brand'']\<rparr>,
       \<lparr>sectionOf = brandAgain\<lparr>embedding := Some [2, 0]\<rparr>, score = 1, matches = [''Brand'']\<rparr>,
       \<lparr>sectionOf = mixedSection\<lparr>embedding := Some [3, 4]\<rparr>, score = 3 / 5, matches = [''brand'']\<rparr>]
      n"
  using findMatches_ranked
  by (simp add: semanticSearch_def sections_rankedService config_rankedService exampleOps_def
      exampleVector_examples cosineSimilarity_def defaultConfig_def sqrt_25 sortByScore_def)

lemma search_rankedService_limit:
  assumes "0 < n"
  shows "search exampleOps rejectingEngine rankedService ''brand'' (Some n)
   = Inr \<lparr>query = ''brand'',
          results = slice0
            [\<lparr>sectionOf = brandSection\<lparr>embedding := Some [2, 0]\<rparr>, score = 1, matches = [''brand'']\<rparr>,
             \<lparr>sectionOf = brandAgain\<lparr>embedding := Some [2, 0]\<rparr>, score = 1, matches = [''Brand'']\<rparr>,
             \<lparr>sectionOf = mixedSection\<lparr>embedding := Some [3, 4]\<rparr>, score = 3 / 5,
              matches = [''brand'']\<rparr>] n,
          totalResults = length (slice0
            [\<lparr>sectionOf = brandSection\<lparr>embedding := Some [2, 0]\<rparr>, score = 1, matches = [''brand'']\<rparr>,
             \<lparr>sectionOf = brandAgain\<lparr>embedding := Some [2, 0]\<rparr>, score = 1, matches = [''Brand'']\<rparr>,
             \<lparr>sectionOf = mixedSection\<lparr>embedding := Some [3, 4]\<rparr>, score = 3 / 5,
              matches = [''brand'']\<rparr>] n)\<rparr>"
proof -
  have nk: "\<not> enableKeywordSearch (config rankedService)"
    by (simp add: config_rankedService defaultConfig_def)
  have l: "limitOf rankedService (Some n) = n"
    using assms by (simp add: limitOf_def)
  have s: "sortByScore (slice0 xs n) = slice0 xs n"
    if "sorted (map (\<lambda>r. - score r) xs)" for xs
  proof -
    obtain k where k: "slice0 xs n = take k xs"
      using slice0_take by blast
    show ?thesis
      unfolding k by (rule sortByScore_sorted [OF sorted_take_scores [OF that]])
  qed
  have t: "slice0 (slice0 xs n) n = slice0 xs n" for xs :: "SearchResult list"
    using assms by (simp add: slice0_def)
  show ?thesis
    unfolding search_vector_only [OF nk] l
    by (simp add: config_rankedService defaultConfig_def semanticSearch_rankedService_limit s t)
qed

lemma trim_brand: "trim ''brand'' = ''brand''"
  by code_simp

lemma parseInt10_examples:
  "parseInt10 ''2'' = Some 2" "parseInt10 ''0'' = Some 0" "parseInt10 ''100.9'' = Some 100"
  by code_simp+

text \<open>
  C6, the claim as stated. The caller supplies the limit \<open>100.9\<close>, which lies outside
  \<open>[1,100]\<close>: \<open>parseInt\<close> reads it as \<open>100\<close>, and the route answers with a response
  instead of a \<open>ValidationError\<close>.
\<close>

theorem limit_counterexample:
  "parseInt10 ''100.9'' = Some 100
   \<and> searchRoute exampleOps rejectingEngine rankedService (Some ''brand'') (Some ''100.9'')
     = Inr \<lparr>query = ''brand'',
            results =
              [\<lparr>sectionOf = brandSection\<lparr>embedding := Some [2, 0]\<rparr>, score = 1, matches = [''brand'']\<rparr>,
               \<lparr>sectionOf = brandAgain\<lparr>embedding := Some [2, 0]\<rparr>, score = 1, matches = [''Brand'']\<rparr>,
               \<lparr>sectionOf = mixedSection\<lparr>embedding := Some [3, 4]\<rparr>, score = 3 / 5,
                matches = [''brand'']\<rparr>],
            totalResults = 3\<rparr>"
proof -
  have "search exampleOps rejectingEngine rankedService ''brand'' (Some 100)
     = Inr \<lparr>query = ''brand'',
            results =
              [\<lparr>sectionOf = brandSection\<lparr>embedding := Some [2, 0]\<rparr>, score = 1, matches = [''brand'']\<rparr>,
               \<lparr>sectionOf = brandAgain\<lparr>embedding := Some [2, 0]\<rparr>, score = 1, matches = [''Brand'']\<rparr>,
               \<lparr>sectionOf = mixedSection\<lparr>embedding := Some [3, 4]\<rparr>, score = 3 / 5,
                matches = [''brand'']\<rparr>],
            totalResults = 3\<rparr>"
    using search_rankedService_limit [of 100] by (simp add: slice0_def)
  then show ?thesis
    by (simp add: searchRoute_def trim_brand parseInt10_examples)
qed

text \<open>
  C6, amended. The route reads the limit of the caller with \<open>parseInt\<close>: the integer that
  the sign and the digits at the start of the string denote, whatever follows them; the
  decimal numeral of \<open>k\<close> is read as \<open>k\<close>. When no integer is read or the integer read
  lies outside \<open>[1,100]\<close>, the route throws a \<open>ValidationError\<close> and replaces the limit by
  no other; when it lies in \<open>[1,100]\<close>, the route searches with it; an empty limit counts
  as absent. A search with a limit \<open>m\<close> of at least one that returns a response returns at
  most \<open>m\<close> results. \<open>search\<close> itself checks no limit: with the limit \<open>0\<close> it does what it
  does without a limit.
\<close>

theorem route_limit_read_by_parseInt:
  assumes "q \<noteq> []" and "trim q \<noteq> []" and "length q \<le> 500" and "l \<noteq> []"
  shows "(parseInt10 l = None \<or> (\<exists>n. parseInt10 l = Some n \<and> (n < 1 \<or> 100 < n))
            \<longrightarrow> searchRoute E R st (Some q) (Some l)
                = Inl (ValidationError ''Limit must be a number between 1 and 100''))
       \<and> (parseInt10 l = Some n \<and> 1 \<le> n \<and> n \<le> 100
            \<longrightarrow> searchRoute E R st (Some q) (Some l) = search E R st (trim q) (Some n))
       \<and> (search E R st q' (Some m) = Inr resp \<and> 1 \<le> m
            \<longrightarrow> length (results resp) \<le> nat m \<and> totalResults resp = length (results resp))
       \<and> parseInt10 (showInt k) = Some k
       \<and> searchRoute E R st (Some q) (Some []) = searchRoute E R st (Some q) None
       \<and> search E R st q' (Some 0) = search E R st q' None"
proof -
  have e: "searchRoute E R st (Some q) (Some []) = searchRoute E R st (Some q) None"
    by (simp add: searchRoute_def)
  have a: "searchRoute E R st (Some q) (Some l)
      = Inl (ValidationError ''Limit must be a number between 1 and 100'')"
    if "parseInt10 l = None \<or> (\<exists>n. parseInt10 l = Some n \<and> (n < 1 \<or> 100 < n))"
    using that assms by (auto simp add: searchRoute_def)
  have b: "searchRoute E R st (Some q) (Some l) = search E R st (trim q) (Some n)"
    if "parseInt10 l = Some n \<and> 1 \<le> n \<and> n \<le> 100"
    using that assms by (simp add: searchRoute_def)
  have c: "length (results resp) \<le> nat m \<and> totalResults resp = length (results resp)"
    if "search E R st q' (Some m) = Inr resp \<and> 1 \<le> m"
    using that search_limit [of E R st q' m resp] by blast
  have d: "search E R st q' (Some 0) = search E R st q' None"
    by (simp add: search_def limitOf_def)
  show ?thesis
    using a b c d e parseInt10_showInt by blast
qed

theorem route_limit_read_by_parseInt_witness:
  "searchRoute exampleOps rejectingEngine rankedService (Some ''brand'') (Some ''2'')
     = Inr \<lparr>query = ''brand'',
            results =
              [\<lparr>sectionOf = brandSection\<lparr>embedding := Some [2, 0]\<rparr>, score = 1, matches = [''brand'']\<rparr>,
               \<lparr>sectionOf = brandAgain\<lparr>embedding := Some [2, 0]\<rparr>, score = 1, matches = [''Brand'']\<rparr>],
            totalResults = 2\<rparr>
   \<and> length (sections rankedService) = 3
   \<and> parseInt10 ''0'' = Some 0
   \<and> searchRoute exampleOps rejectingEngine rankedService (Some ''brand'') (Some ''0'')
     = Inl (ValidationError ''Limit must be a number between 1 and 100'')"
proof -
  have q: "''brand'' \<noteq> []" "trim ''brand'' \<noteq> []" "length ''brand'' \<le> 500"
    by (simp_all add: trim_brand)
  have s: "search exampleOps rejectingEngine rankedService ''brand'' (Some 2)
     = Inr \<lparr>query = ''brand'',
            results =
              [\<lparr>sectionOf = brandSection\<lparr>embedding := Some [2, 0]\<rparr>, score = 1, matches = [''brand'']\<rparr>,
               \<lparr>sectionOf = brandAgain\<lparr>embedding := Some [2, 0]\<rparr>, score = 1, matches = [''Brand'']\<rparr>],
            totalResults = 2\<rparr>"
    using search_rankedService_limit [of 2] by (simp add: slice0_def)
  have "searchRoute exampleOps rejectingEngine rankedService (Some ''brand'') (Some ''2'')
      = search exampleOps rejectingEngine rankedService (trim ''brand'') (Some 2)"
    using route_limit_read_by_parseInt
        [of "''brand''" "''2''" exampleOps rejectingEngine rankedService 2] q parseInt10_examples
    by simp
  then have a: "searchRoute exampleOps rejectingEngine rankedService (Some ''brand'') (Some ''2'')
     = Inr \<lparr>query = ''brand'',
            results =
              [\<lparr>sectionOf = brandSection\<lparr>embedding := Some [2, 0]\<rparr>, score = 1, matches = [''brand'']\<rparr>,
               \<lparr>sectionOf = brandAgain\<lparr>embedding := Some [2, 0]\<rparr>, score = 1, matches = [''Brand'']\<rparr>],
            totalResults = 2\<rparr>"
    by (simp add: trim_brand s)
  have b: "searchRoute exampleOps rejectingEngine rankedService (Some ''brand'') (Some ''0'')
     = Inl (ValidationError ''Limit must be a number between 1 and 100'')"
    using route_limit_read_by_parseInt
        [of "''brand''" "''0''" exampleOps rejectingEngine rankedService 0] q parseInt10_examples
    by simp
  show ?thesis
    using a b parseInt10_examples by (simp add: sections_rankedService)
qed

section \<open>The scores of the keyword strategy\<close>

lemma termsOf_boundary: "termsOf (CHR 0x5C # ''bbrand'') = [CHR 0x5C # ''bbrand'']"
  by code_simp

lemma rawScore_boundary:
  "rawScore [CHR 0x5C # ''bbrand''] (brandColors\<lparr>embedding := Some [1, 1, 1]\<rparr>) = 0"
  by code_simp

lemma keywordLoop_boundary:
  "keywordLoop rejectingEngine (CHR 0x5C # ''bbrand'') (queryTerms (CHR 0x5C # ''bbrand''))
     [brandColors\<lparr>embedding := Some [1, 1, 1]\<rparr>] []
   = Inr [\<lparr>sectionOf = brandColors\<lparr>embedding := Some [1, 1, 1]\<rparr>, score = 3 / 5, matches = []\<rparr>]"
  by code_simp

text \<open>
  C5, the claim as stated. The query \<open>\bbrand\<close> is one term of seven characters, which
  occurs neither in the title \<open>Brand Colors\<close> nor in the body \<open>blue\<close> of the indexed
  section, whatever the case of the letters: the raw score of the section is zero. The
  keyword strategy takes the term as a pattern, finds one match in the title and reports
  the section with the score \<open>3 / 5\<close>.
\<close>

theorem keyword_occurrences_counterexample:
  "termsOf (CHR 0x5C # ''bbrand'') = [CHR 0x5C # ''bbrand'']
   \<and> sections unevenService = [brandColors\<lparr>embedding := Some [1, 1, 1]\<rparr>]
   \<and> rawScore (termsOf (CHR 0x5C # ''bbrand'')) (brandColors\<lparr>embedding := Some [1, 1, 1]\<rparr>) = 0
   \<and> keywordSearch rejectingEngine unevenService (CHR 0x5C # ''bbrand'') 10
     = Inr (Promise [\<lparr>sectionOf = brandColors\<lparr>embedding := Some [1, 1, 1]\<rparr>, score = 3 / 5,
                      matches = []\<rparr>])"
proof -
  have "keywordSearch rejectingEngine unevenService (CHR 0x5C # ''bbrand'') 10
     = Inr (Promise [\<lparr>sectionOf = brandColors\<lparr>embedding := Some [1, 1, 1]\<rparr>, score = 3 / 5,
                      matches = []\<rparr>])"
    unfolding keywordSearch_def sections_unevenService keywordLoop_boundary
    by (simp add: sortByScore_def slice0_def)
  then show ?thesis
    using sections_unevenService by (simp add: termsOf_boundary rawScore_boundary)
qed

text \<open>
  C5, amended. The terms of a query are its words of more than two characters, which the
  keyword strategy takes in lower case. When no term holds a syntax character of regular
  expressions, the keyword strategy resolves to these candidates: the indexed sections
  whose raw score, the sum over the terms of three times the occurrences in the title plus
  the occurrences in the body, whatever the case of the letters, is positive, each with
  the raw score divided by five times the number of terms and cut at one as its score,
  which lies in \<open>[0,1]\<close>, sorted by descending score and cut at the limit. A section whose
  raw score is zero is no candidate.
\<close>

theorem keywordSearch_literal_scores:
  assumes "\<forall>t\<in>set (termsOf q). literalTerm t"
  shows "queryTerms q = map toLowerCase (termsOf q)
       \<and> (\<exists>all. keywordSearch R st q n = Inr (Promise (slice0 (sortByScore all) n))
            \<and> map sectionOf all = filter (\<lambda>s. 0 < rawScore (termsOf q) s) (sections st)
            \<and> (\<forall>r\<in>set all. score r = normalizedScore (termsOf q) (sectionOf r)
                 \<and> 0 \<le> score r \<and> score r \<le> 1))"
proof -
  obtain all where all: "keywordSearch R st q n = Inr (Promise (slice0 (sortByScore all) n))"
    "map sectionOf all = filter (\<lambda>s. 0 < rawScore (termsOf q) s) (sections st)"
    "\<forall>r\<in>set all. score r = normalizedScore (termsOf q) (sectionOf r)"
    using keywordSearch_literal [OF assms] by blast
  have "\<forall>r\<in>set all. score r = normalizedScore (termsOf q) (sectionOf r)
      \<and> 0 \<le> score r \<and> score r \<le> 1"
    using all(3) normalizedScore_range by simp
  then show ?thesis
    using all(1,2) queryTerms_termsOf by blast
qed

lemma termsOf_mixed: "termsOf ''Brand colors'' = [''Brand'', ''colors'']"
  by code_simp

lemma queryTerms_mixed: "queryTerms ''Brand colors'' = [''brand'', ''colors'']"
  by code_simp

lemma rawScore_mixed:
  "rawScore [''Brand'', ''colors''] (mixedSection\<lparr>embedding := Some [3, 4]\<rparr>) = 6"
  by code_simp

lemma keywordLoop_mixed:
  "keywordLoop rejectingEngine ''Brand colors'' [''brand'', ''colors'']
     [mixedSection\<lparr>embedding := Some [3, 4]\<rparr>, brandSection\<lparr>embedding := Some [2, 0]\<rparr>,
      brandAgain\<lparr>embedding := Some [2, 0]\<rparr>] []
   = Inr [\<lparr>sectionOf = mixedSection\<lparr>embedding := Some [3, 4]\<rparr>, score = 3 / 5,
           matches = [''brand'', ''colors'']\<rparr>,
          \<lparr>sectionOf = brandSection\<lparr>embedding := Some [2, 0]\<rparr>, score = 2 / 5,
           matches = [''brand'']\<rparr>,
          \<lparr>sectionOf = brandAgain\<lparr>embedding := Some [2, 0]\<rparr>, score = 2 / 5,
           matches = [''Brand'']\<rparr>]"
  by code_simp

lemma keywordSearch_hybridService:
  "keywordSearch rejectingEngine hybridService ''Brand colors'' 2
   = Inr (Promise
       [\<lparr>sectionOf = mixedSection\<lparr>embedding := Some [3, 4]\<rparr>, score = 3 / 5,
         matches = [''brand'', ''colors'']\<rparr>,
        \<lparr>sectionOf = brandSection\<lparr>embedding := Some [2, 0]\<rparr>, score = 2 / 5,
         matches = [''brand'']\<rparr>])"
  unfolding keywordSearch_def sections_hybridService queryTerms_mixed keywordLoop_mixed
  by (simp add: sortByScore_def slice0_def)

theorem keywordSearch_literal_scores_witness:
  "termsOf ''Brand colors'' = [''Brand'', ''colors'']
   \<and> literalTerm ''Brand'' \<and> literalTerm ''colors''
   \<and> queryTerms ''Brand colors'' = [''brand'', ''colors'']
   \<and> keywordSearch rejectingEngine hybridService ''Brand colors'' 2
     = Inr (Promise
         [\<lparr>sectionOf = mixedSection\<lparr>embedding := Some [3, 4]\<rparr>, score = 3 / 5,
           matches = [''brand'', ''colors'']\<rparr>,
          \<lparr>sectionOf = brandSection\<lparr>embedding := Some [2, 0]\<rparr>, score = 2 / 5,
           matches = [''brand'']\<rparr>])
   \<and> rawScore (termsOf ''Brand colors'') (mixedSection\<lparr>embedding := Some [3, 4]\<rparr>) = 6
   \<and> normalizedScore (termsOf ''Brand colors'') (mixedSection\<lparr>embedding := Some [3, 4]\<rparr>) = 3 / 5"
proof -
  have lit: "literalTerm ''Brand''" "literalTerm ''colors''"
    by (simp_all add: literalTerm_def syntaxCharacters_def)
  then have l: "\<forall>t\<in>set (termsOf ''Brand colors''). literalTerm t"
    by (simp add: termsOf_mixed)
  define r where "r = \<lparr>sectionOf = mixedSection\<lparr>embedding := Some [3, 4]\<rparr>, score = 3 / 5,
           matches = [''brand'', ''colors'']\<rparr>"
  obtain all where all:
    "keywordSearch rejectingEngine hybridService ''Brand colors'' 2
       = Inr (Promise (slice0 (sortByScore all) 2))"
    "\<forall>r\<in>set all. score r = normalizedScore (termsOf ''Brand colors'') (sectionOf r)
       \<and> 0 \<le> score r \<and> score r \<le> 1"
    and qt: "queryTerms ''Brand colors'' = map toLowerCase (termsOf ''Brand colors'')"
    using keywordSearch_literal_scores [OF l, of rejectingEngine hybridService 2] by blast
  have "slice0 (sortByScore all) 2
      = [r, \<lparr>sectionOf = brandSection\<lparr>embedding := Some [2, 0]\<rparr>, score = 2 / 5,
              matches = [''brand'']\<rparr>]"
    using all(1) by (simp add: keywordSearch_hybridService r_def)
  then have "r \<in> set (slice0 (sortByScore all) 2)"
    by simp
  then have "r \<in> set all"
    using set_slice0 [of "sortByScore all" 2] by (auto simp add: set_sortByScore)
  then have "score r = normalizedScore (termsOf ''Brand colors'') (sectionOf r)"
    using all(2) by blast
  then have n: "normalizedScore (termsOf ''Brand colors'') (mixedSection\<lparr>embedding := Some [3, 4]\<rparr>)
      = 3 / 5"
    by (simp add: r_def)
  have q: "queryTerms ''Brand colors'' = [''brand'', ''colors'']"
    by (rule queryTerms_mixed)
  show ?thesis
    using lit n q keywordSearch_hybridService by (simp add: termsOf_mixed rawScore_mixed)
qed

section \<open>Extraction and regeneration\<close>


















end
